theory Spec2Isabelle
  imports Main "HOL-Library.AList" "HOL-Library.Char_ord" "HOL-Library.List_Lexorder"
begin

unbundle bit_operations_syntax

section \<open>MCTS: embedding of src/mcts.py\<close>

text \<open>
  Python integers are unbounded, so they are \<open>int\<close>. On \<open>int\<close>, \<open>drop_bit n\<close> is the
  arithmetic right shift of Python's \<open>>>\<close> (floor division by \<open>2 ^ n\<close>) and \<open>AND\<close> is
  Python's \<open>&\<close> on the two's-complement reading.

  A Python \<open>dict\<close> keeps insertion order and assignment to a key that is present replaces
  the value where it stands. That is \<open>AList.update\<close> on an association list; lookup is
  \<open>map_of\<close>.
\<close>

type_synonym ('k, 'v) dict = "('k \<times> 'v) list"

text \<open>\<open>d.update(other)\<close>: every item of \<open>other\<close>, in its order, is assigned into \<open>d\<close>.\<close>

definition dict_update :: "('k, 'v) dict \<Rightarrow> ('k, 'v) dict \<Rightarrow> ('k, 'v) dict" where
  "dict_update d other = fold (\<lambda>(k, v) acc. AList.update k v acc) other d"

text \<open>Python slice indices: a negative index counts from the end, and both are clamped.\<close>

definition py_index :: "int \<Rightarrow> nat \<Rightarrow> nat" where
  "py_index i n = (if i < 0 then nat (max 0 (i + int n)) else min (nat i) n)"

definition py_slice :: "'a list \<Rightarrow> int \<Rightarrow> int \<Rightarrow> 'a list" where
  "py_slice xs a b =
     (let lo = py_index a (length xs); hi = py_index b (length xs)
      in take (hi - lo) (drop lo xs))"

definition py_slice_from :: "'a list \<Rightarrow> int \<Rightarrow> 'a list" where
  "py_slice_from xs a = drop (py_index a (length xs)) xs"

text \<open>\<open>enumerate(xs, start)\<close>.\<close>

fun enumerate_from :: "int \<Rightarrow> 'a list \<Rightarrow> (int \<times> 'a) list" where
  "enumerate_from i [] = []"
| "enumerate_from i (x # xs) = (i, x) # enumerate_from (i + 1) xs"

text \<open>\<open>str(n)\<close> for the integers of an f-string.\<close>

definition digit_char :: "nat \<Rightarrow> char" where
  "digit_char d = ''0123456789'' ! d"

function str_nat :: "nat \<Rightarrow> string" where
  "str_nat n = (if n < 10 then [digit_char n] else str_nat (n div 10) @ [digit_char (n mod 10)])"
  by pat_completeness auto
termination
  by (relation "measure (\<lambda>n. n)") auto

declare str_nat.simps [simp del]

definition str_int :: "int \<Rightarrow> string" where
  "str_int i = (if i < 0 then CHR ''-'' # str_nat (nat (- i)) else str_nat (nat i))"

subsection \<open>Globals\<close>

text \<open>\<open>CHECKPOINT_INTERVAL = 10\<close> seconds. Clock readings are in microseconds, the
  resolution of \<open>datetime\<close>, so \<open>total_seconds() >= CHECKPOINT_INTERVAL\<close> is a comparison
  of the difference with ten million.\<close>

definition CHECKPOINT_INTERVAL :: int where
  "CHECKPOINT_INTERVAL = 10"

definition interval_elapsed :: "int \<Rightarrow> int \<Rightarrow> bool" where
  "interval_elapsed current_time last_checkpoint_time =
     (current_time - last_checkpoint_time \<ge> CHECKPOINT_INTERVAL * 1000000)"

subsection \<open>The checkpoint document and the project directory\<close>

text \<open>
  The checkpoint is a JSON object. Its keys are the ones the program writes: the seven
  of \<open>get_config\<close> (always present; \<open>bx\<close>, \<open>by\<close>, \<open>bs\<close> are \<open>cfg_bx\<close>, \<open>cfg_by\<close>,
  \<open>cfg_bs\<close> here) and the progress keys, each absent (\<open>None\<close>) until a stage sets it.
  The \<open>timestamp\<close> key that \<open>save_checkpoint\<close> refreshes is wall-clock text and is left out.
\<close>

record checkpoint =
  mode :: string
  is_dsm :: bool
  crs :: string
  cfg_bx :: int
  cfg_by :: int
  cfg_bs :: int
  project_name :: string
  current_step :: "string option"
  step1_progress :: "int option"
  step1_complete :: "bool option"
  step2_batch :: "int option"
  mca_created :: "nat option"
  min_elevation :: "int option"
  step2_complete :: "bool option"
  final_mca_count :: "nat option"

text \<open>The exceptions of the source that the embedding names.\<close>

datatype py_error = ZeroDivisionError | OSError | JSONDecodeError | UnboundLocalError

text \<open>What \<open>checkpoint.json\<close> of a project directory holds: no such file, a file that
  exists and cannot be opened, a file whose text is not JSON, or a document.\<close>

datatype checkpoint_file = Missing | Unreadable | Unparsable | Document checkpoint

text \<open>\<open>ProjectManager.load_checkpoint\<close> (lines 137-142): \<open>None\<close> without a file; \<open>open\<close> and
  \<open>json.load\<close> are not guarded, so their exceptions leave the method.\<close>

definition load_checkpoint :: "checkpoint_file \<Rightarrow> py_error + checkpoint option" where
  "load_checkpoint cf =
     (case cf of
        Missing \<Rightarrow> Inr None
      | Unreadable \<Rightarrow> Inl OSError
      | Unparsable \<Rightarrow> Inl JSONDecodeError
      | Document data \<Rightarrow> Inr (Some data))"

text \<open>An entry of \<open>os.listdir(PROJECTS_DIR)\<close>: its name, whether it is a directory, and
  its checkpoint file.\<close>

type_synonym project_entry = "string \<times> bool \<times> checkpoint_file"

text \<open>\<open>get_existing_projects\<close> (lines 160-175): the bare \<open>except: pass\<close> around \<open>open\<close> and
  \<open>json.load\<close> skips an entry whose file does not load.\<close>

fun get_existing_projects :: "project_entry list \<Rightarrow> (string \<times> checkpoint) list" where
  "get_existing_projects [] = []"
| "get_existing_projects ((proj_name, isdir, cf) # rest) =
     (if isdir then
        (case cf of
           Missing \<Rightarrow> get_existing_projects rest
         | Unreadable \<Rightarrow> get_existing_projects rest
         | Unparsable \<Rightarrow> get_existing_projects rest
         | Document data \<Rightarrow> (proj_name, data) # get_existing_projects rest)
      else get_existing_projects rest)"

text \<open>What \<open>resume_project\<close> prints.\<close>

datatype ui_message =
    No_projects_available
  | Resuming_project string "string option"

text \<open>\<open>resume_project\<close> (lines 663-683). The operator's answer to the selection prompt is
  the position of the chosen line in the displayed list, or \<open>None\<close> when the prompt is
  cancelled; \<open>choices.index(sel)\<close> recovers that position from the line. The prompt is
  shown only when the list is not empty. The result is the project name with its
  checkpoint (\<open>None\<close> for the pair \<open>(None, None)\<close>) and the messages printed.\<close>

definition resume_project ::
  "project_entry list \<Rightarrow> nat option \<Rightarrow> (string \<times> checkpoint) option \<times> ui_message list" where
  "resume_project listing answer =
     (let projects = get_existing_projects listing in
      if projects = [] then (None, [No_projects_available])
      else
        (case answer of
           None \<Rightarrow> (None, [])
         | Some idx \<Rightarrow>
             (if idx < length projects then
                (let (proj_name, checkpoint_data) = projects ! idx
                 in (Some (proj_name, checkpoint_data),
                     [Resuming_project proj_name (current_step checkpoint_data)]))
              else (None, []))))"

subsection \<open>Reading a tile\<close>

text \<open>
  Lines 241-265 of \<open>process_tiff_simple\<close> read the raster and compute, in floating point,
  the three flattened integer arrays \<open>x_coords\<close>, \<open>y_coords\<close>, \<open>data\<close>. That part is the
  raster library's: a \<open>raster_reader\<close> gives, for a path and the two offsets, the arrays
  zipped into cells \<open>(x, z, elevation)\<close>, or \<open>None\<close> when anything there raises.
\<close>

type_synonym cell = "int \<times> int \<times> int"
type_synonym raster_reader = "string \<Rightarrow> int \<Rightarrow> int \<Rightarrow> cell list option"
type_synonym coords = "(int \<times> int, int) dict"

definition nodata_default :: int where
  "nodata_default = - 9999"

text \<open>\<open>int(np.min(data))\<close> of a non-empty array.\<close>

fun np_min :: "int list \<Rightarrow> int" where
  "np_min [] = 0"
| "np_min (y # ys) = fold min ys y"

text \<open>The loop of lines 280-282.\<close>

definition build_coords :: "cell list \<Rightarrow> coords" where
  "build_coords cells = fold (\<lambda>(x, z, y) coords_data. AList.update (x, z) y coords_data) cells []"

text \<open>\<open>process_tiff_simple\<close> (lines 235-287), from the mask of line 268 on. Returns
  \<open>(current_min, coords_data)\<close>, both \<open>None\<close> for an unreadable or all-nodata tile.\<close>

definition process_tiff_simple ::
  "raster_reader \<Rightarrow> string \<Rightarrow> int \<Rightarrow> int \<Rightarrow> int \<Rightarrow> int option \<times> coords option" where
  "process_tiff_simple rd tiff_path base_x base_y nodata_value =
     (case rd tiff_path base_x base_y of
        None \<Rightarrow> (None, None)
      | Some cells \<Rightarrow>
          (let valid = filter (\<lambda>(x, z, y). y \<noteq> nodata_value) cells in
           if length valid = 0 then (None, None)
           else (Some (np_min (map (\<lambda>(x, z, y). y) valid)), Some (build_coords valid))))"

subsection \<open>The coordinate partitioner\<close>

definition region :: "int \<Rightarrow> int" where
  "region v = drop_bit 9 v"

definition chunk :: "int \<Rightarrow> int" where
  "chunk v = (drop_bit 4 v) AND 31"

definition block :: "int \<Rightarrow> int" where
  "block v = v AND 15"

text \<open>The three keys that lines 298-307 compute for one coordinate.\<close>

definition decompose :: "int \<Rightarrow> int \<Rightarrow> (int \<times> int) \<times> (int \<times> int) \<times> (int \<times> int)" where
  "decompose x z = ((region x, region z), (chunk x, chunk z), (block x, block z))"

text \<open>The inverse the specification speaks of (the source has none): a region spans 512
  units, a chunk 16, a block 1.\<close>

definition recombine :: "(int \<times> int) \<times> (int \<times> int) \<times> (int \<times> int) \<Rightarrow> int \<times> int" where
  "recombine k =
     (case k of ((region_x, region_z), (chunk_x, chunk_z), (block_x, block_z)) \<Rightarrow>
        (region_x * 512 + chunk_x * 16 + block_x, region_z * 512 + chunk_z * 16 + block_z))"

type_synonym block_dict = "(int \<times> int, int) dict"
type_synonym chunk_dict = "(int \<times> int, block_dict) dict"
type_synonym region_dict = "(int \<times> int, chunk_dict) dict"

text \<open>Reading a key of a \<open>defaultdict\<close> whose factory makes an empty dictionary.\<close>

definition dd_get :: "('k, ('a \<times> 'b) list) dict \<Rightarrow> 'k \<Rightarrow> ('a \<times> 'b) list" where
  "dd_get d k = (case map_of d k of None \<Rightarrow> [] | Some v \<Rightarrow> v)"

text \<open>Line 310, \<open>region_data[rk][ck][bk] = y\<close>: a missing region or chunk is created where
  it is first read, at the end of its dictionary.\<close>

definition region_insert ::
  "region_dict \<Rightarrow> int \<times> int \<Rightarrow> int \<times> int \<Rightarrow> int \<times> int \<Rightarrow> int \<Rightarrow> region_dict" where
  "region_insert region_data rk ck bk y =
     (let chunks = dd_get region_data rk;
          blocks = dd_get chunks ck
      in AList.update rk (AList.update ck (AList.update bk y blocks) chunks) region_data)"

text \<open>\<open>organize_by_region\<close> (lines 289-312).\<close>

definition organize_by_region :: "coords \<Rightarrow> region_dict" where
  "organize_by_region coords_data =
     fold (\<lambda>((x, z), y) region_data.
             (case decompose x z of
                (rk, ck, bk) \<Rightarrow> region_insert region_data rk ck bk y))
       coords_data []"

subsection \<open>Building and emitting regions\<close>

text \<open>
  The region container library is outside the repository. What the program depends on
  is whether its calls raise: \<open>chunk.set_block\<close> (caught per block, line 344),
  \<open>region.add_chunk\<close> (not caught inside \<open>generate_mca_file\<close>) and \<open>region.save\<close>.
\<close>

record codec =
  set_block_ok :: "int \<Rightarrow> int \<Rightarrow> int \<Rightarrow> bool"
  add_chunk_ok :: "int \<times> int \<Rightarrow> int \<times> int \<Rightarrow> bool"
  save_ok :: "string \<Rightarrow> bool"

text \<open>A chunk holds the positions \<open>(x, y, z)\<close> at which a stone block was set.\<close>

record chunk_doc =
  chk_x :: int
  chk_z :: int
  chk_blocks :: "(int \<times> int \<times> int) list"

record region_doc =
  reg_x :: int
  reg_z :: int
  reg_chunks :: "chunk_doc list"

text \<open>Lines 339-346: one \<open>set_block\<close> at height \<open>y\<close> per column that passes the guard.\<close>

fun place_blocks :: "codec \<Rightarrow> int \<Rightarrow> block_dict \<Rightarrow> (int \<times> int \<times> int) list" where
  "place_blocks cd min_elev [] = []"
| "place_blocks cd min_elev (((block_x, block_z), y) # rest) =
     (if min_elev \<le> y \<and> y \<le> 319 then
        (if set_block_ok cd block_x y block_z
         then (block_x, y, block_z) # place_blocks cd min_elev rest
         else place_blocks cd min_elev rest)
      else place_blocks cd min_elev rest)"

text \<open>Lines 334-349; \<open>None\<close> when \<open>add_chunk\<close> raises.\<close>

fun build_chunks ::
  "codec \<Rightarrow> int \<times> int \<Rightarrow> int \<Rightarrow> chunk_dict \<Rightarrow> chunk_doc list \<Rightarrow> chunk_doc list option" where
  "build_chunks cd rk min_elev [] acc = Some acc"
| "build_chunks cd rk min_elev (((chunk_x, chunk_z), block_coords) # rest) acc =
     (let c = \<lparr>chk_x = chunk_x, chk_z = chunk_z,
                chk_blocks = place_blocks cd min_elev block_coords\<rparr>
      in if add_chunk_ok cd rk (chunk_x, chunk_z)
         then build_chunks cd rk min_elev rest (acc @ [c])
         else None)"

text \<open>\<open>generate_mca_file\<close> (lines 314-351). \<open>is_dsm\<close> is accepted and not used, as in the
  source.\<close>

definition generate_mca_file ::
  "codec \<Rightarrow> int \<Rightarrow> int \<Rightarrow> chunk_dict \<Rightarrow> int \<Rightarrow> bool \<Rightarrow> region_doc option" where
  "generate_mca_file cd region_x region_z chunks_data min_elev dsm =
     map_option (\<lambda>cs. \<lparr>reg_x = region_x, reg_z = region_z, reg_chunks = cs\<rparr>)
       (build_chunks cd (region_x, region_z) min_elev chunks_data [])"

definition mca_filename :: "int \<Rightarrow> int \<Rightarrow> string" where
  "mca_filename region_x region_z = ''r.'' @ str_int region_x @ ''.'' @ str_int region_z @ ''.mca''"

text \<open>
  The effects of one emission: the skip-set \<open>existing_mcas_set\<close> (mutated in place by the
  source), the region files written, in order, the filenames for which the \<open>try\<close> body
  of line 385 was entered (a region was built), and the local counter \<open>mca_count\<close>.
\<close>

record emission =
  existing_mcas_set :: "string set"
  written :: "(string \<times> region_doc) list"
  attempted :: "string list"
  mca_count :: nat

text \<open>The loop of lines 376-396.\<close>

fun emit_regions :: "codec \<Rightarrow> int \<Rightarrow> bool \<Rightarrow> region_dict \<Rightarrow> emission \<Rightarrow> emission" where
  "emit_regions cd min_elev dsm [] st = st"
| "emit_regions cd min_elev dsm (((region_x, region_z), chunks) # rest) st =
     (let mca_file = mca_filename region_x region_z in
      if mca_file \<in> existing_mcas_set st then emit_regions cd min_elev dsm rest st
      else
        (let st1 = st\<lparr>attempted := attempted st @ [mca_file]\<rparr> in
         case generate_mca_file cd region_x region_z chunks min_elev dsm of
           None \<Rightarrow> emit_regions cd min_elev dsm rest st1
         | Some reg \<Rightarrow>
             (if save_ok cd mca_file then
                emit_regions cd min_elev dsm rest
                  (st1\<lparr>existing_mcas_set := insert mca_file (existing_mcas_set st1),
                       written := written st1 @ [(mca_file, reg)],
                       mca_count := mca_count st1 + 1\<rparr>)
              else emit_regions cd min_elev dsm rest st1)))"

text \<open>\<open>generate_mca_batch\<close> (lines 353-402): the returned count together with the skip-set
  after the call, the files written and the builds attempted. \<open>base_x\<close>, \<open>base_y\<close> are
  accepted and not used, as in the source; \<open>output_dir\<close> only prefixes the path.\<close>

definition generate_mca_batch ::
  "codec \<Rightarrow> coords \<Rightarrow> int \<Rightarrow> int \<Rightarrow> int \<Rightarrow> string set \<Rightarrow> bool \<Rightarrow> emission" where
  "generate_mca_batch cd batch_coords base_x base_y min_elev skip_set dsm =
     emit_regions cd min_elev dsm (organize_by_region batch_coords)
       \<lparr>existing_mcas_set = skip_set, written = [], attempted = [], mca_count = 0\<rparr>"

subsection \<open>Stage 1: reprojection\<close>

text \<open>
  What \<open>reproject_tiff\<close> can do to one tile: write the output, raise before the output
  file is created, or raise after it was opened for writing (the file then exists).
\<close>

datatype reproject_outcome = Reprojected | Failed_no_output | Failed_partial_output

text \<open>
  The surroundings of \<open>s1\<close>: the reprojection outcome of each input file, the clock
  reading of line 463 in the iteration numbered \<open>i\<close>, and the reading of line 431.
\<close>

record s1_env =
  reproject_tiff :: "string \<Rightarrow> reproject_outcome"
  clock_at :: "int \<Rightarrow> int"
  clock_start :: int

text \<open>
  The variables of \<open>s1\<close>: the dictionary \<open>checkpoint_data\<close>, every document
  \<open>pm.save_checkpoint\<close> wrote (the last one is the file), the names present in the
  projected directory, and the counters. \<open>error_log\<close> holds the files reported by line 458.
\<close>

record s1_state =
  checkpoint_data :: checkpoint
  saved_checkpoints :: "checkpoint list"
  projected_files :: "string set"
  last_checkpoint_time :: int
  processed_count :: nat
  skipped_count :: nat
  error_log :: "string list"

text \<open>The loop of lines 439-468 over \<open>enumerate(tfs[start_idx:], start_idx + 1)\<close>. A file
  name stands for its path: input and output carry the same base name.\<close>

fun s1_loop :: "s1_env \<Rightarrow> (int \<times> string) list \<Rightarrow> s1_state \<Rightarrow> s1_state" where
  "s1_loop env [] st = st"
| "s1_loop env ((i, fn) # rest) st =
     (if fn \<in> projected_files st then
        s1_loop env rest (st\<lparr>skipped_count := skipped_count st + 1\<rparr>)
      else
        (case reproject_tiff env fn of
           Failed_no_output \<Rightarrow>
             s1_loop env rest (st\<lparr>error_log := error_log st @ [fn]\<rparr>)
         | Failed_partial_output \<Rightarrow>
             s1_loop env rest
               (st\<lparr>projected_files := insert fn (projected_files st),
                   error_log := error_log st @ [fn]\<rparr>)
         | Reprojected \<Rightarrow>
             (let st1 = st\<lparr>projected_files := insert fn (projected_files st),
                           processed_count := processed_count st + 1\<rparr>;
                  current_time = clock_at env i
              in if interval_elapsed current_time (last_checkpoint_time st1) then
                   (let c = (checkpoint_data st1)
                              \<lparr>step1_progress := Some i, current_step := Some ''project''\<rparr>
                    in s1_loop env rest
                         (st1\<lparr>checkpoint_data := c,
                              saved_checkpoints := saved_checkpoints st1 @ [c],
                              last_checkpoint_time := current_time\<rparr>))
                 else s1_loop env rest st1)))"

text \<open>\<open>s1\<close> (lines 405-490). \<open>tfs\<close> is the glob of the input directory, \<open>present\<close> the names
  in the projected directory at the start. \<open>crs\<close> only reaches \<open>reproject_tiff\<close>.\<close>

definition s1_start :: "s1_env \<Rightarrow> string set \<Rightarrow> checkpoint \<Rightarrow> s1_state" where
  "s1_start env present ckpt =
     \<lparr>checkpoint_data = ckpt, saved_checkpoints = [], projected_files = present,
      last_checkpoint_time = clock_start env, processed_count = 0, skipped_count = 0,
      error_log = []\<rparr>"

definition s1 ::
  "s1_env \<Rightarrow> string list \<Rightarrow> string set \<Rightarrow> string \<Rightarrow> checkpoint \<Rightarrow> bool \<times> s1_state" where
  "s1 env tfs present target_crs ckpt =
     (if tfs = [] then (False, s1_start env present ckpt)
      else
        (let start_idx = (case step1_progress ckpt of None \<Rightarrow> 0 | Some n \<Rightarrow> n);
             st = s1_loop env (enumerate_from (start_idx + 1) (py_slice_from tfs start_idx))
                    (s1_start env present ckpt);
             c = (checkpoint_data st)
                   \<lparr>step1_progress := Some (int (length tfs)), step1_complete := Some True\<rparr>
         in (True, st\<lparr>checkpoint_data := c, saved_checkpoints := saved_checkpoints st @ [c]\<rparr>)))"

text \<open>The checkpoint file after a stage: the last document saved, or the file as it was.\<close>

definition checkpoint_on_disk :: "checkpoint_file \<Rightarrow> checkpoint list \<Rightarrow> checkpoint_file" where
  "checkpoint_on_disk before saves = (if saves = [] then before else Document (last saves))"

subsection \<open>Stage 2: generation\<close>

record s2_env =
  read_raster :: raster_reader
  region_codec :: codec
  batch_clock_at :: "int \<Rightarrow> int"
  batch_clock_start :: int

text \<open>Lines 525-528: the running minimum over the sampled tiles, started by the caller.\<close>

fun sample_floor :: "raster_reader \<Rightarrow> int \<Rightarrow> int \<Rightarrow> string list \<Rightarrow> int \<Rightarrow> int" where
  "sample_floor rd bx by' [] me = me"
| "sample_floor rd bx by' (tp # rest) me =
     (case fst (process_tiff_simple rd tp bx by' nodata_default) of
        None \<Rightarrow> sample_floor rd bx by' rest me
      | Some cm \<Rightarrow> sample_floor rd bx by' rest (if cm < me then cm else me))"

text \<open>Lines 519-540, "Calculate or load minimum elevation": the floor \<open>me\<close>, the
  dictionary afterwards and the documents saved (one on a fresh run, none otherwise).\<close>

definition elevation_floor ::
  "raster_reader \<Rightarrow> string list \<Rightarrow> int \<Rightarrow> int \<Rightarrow> checkpoint
     \<Rightarrow> int \<times> checkpoint \<times> checkpoint list" where
  "elevation_floor rd tfs bx by' ckpt =
     (case min_elevation ckpt of
        None \<Rightarrow>
          (let sample_size = min 100 (length tfs);
               me = sample_floor rd bx by' (take sample_size tfs) 0;
               c = ckpt\<lparr>min_elevation := Some me\<rparr>
           in (me, c, [c]))
      | Some stored \<Rightarrow> (stored, ckpt, []))"

text \<open>Lines 572-576: the coordinate map of one batch.\<close>

fun aggregate_batch :: "raster_reader \<Rightarrow> int \<Rightarrow> int \<Rightarrow> string list \<Rightarrow> coords \<Rightarrow> coords" where
  "aggregate_batch rd bx by' [] batch_coords = batch_coords"
| "aggregate_batch rd bx by' (tiff_path # rest) batch_coords =
     (case snd (process_tiff_simple rd tiff_path bx by' nodata_default) of
        None \<Rightarrow> aggregate_batch rd bx by' rest batch_coords
      | Some cs \<Rightarrow>
          (if cs \<noteq> [] then aggregate_batch rd bx by' rest (dict_update batch_coords cs)
           else aggregate_batch rd bx by' rest batch_coords))"

record s2_state =
  s2_checkpoint :: checkpoint
  s2_saved :: "checkpoint list"
  skip_set :: "string set"
  mca_written :: "(string \<times> region_doc) list"
  mca_attempted :: "string list"
  total_mca_created :: nat
  s2_last_checkpoint_time :: int

text \<open>The loop of lines 565-606 over \<open>range(start_batch, total_batches)\<close>.\<close>

fun s2_batches ::
  "s2_env \<Rightarrow> string list \<Rightarrow> int \<Rightarrow> int \<Rightarrow> int \<Rightarrow> int \<Rightarrow> int list \<Rightarrow> s2_state \<Rightarrow> s2_state" where
  "s2_batches env tfs bx by' bs me [] st = st"
| "s2_batches env tfs bx by' bs me (batch_idx # rest) st =
     (let batch_start_idx = batch_idx * bs;
          batch_end_idx = min (batch_start_idx + bs) (int (length tfs));
          batch_files = py_slice tfs batch_start_idx batch_end_idx;
          batch_coords = aggregate_batch (read_raster env) bx by' batch_files [];
          st1 = (if batch_coords \<noteq> [] then
                   (let em = generate_mca_batch (region_codec env) batch_coords bx by' me
                               (skip_set st) (is_dsm (s2_checkpoint st))
                    in st\<lparr>skip_set := existing_mcas_set em,
                          mca_written := mca_written st @ written em,
                          mca_attempted := mca_attempted st @ attempted em,
                          total_mca_created := total_mca_created st + mca_count em\<rparr>)
                 else st);
          current_time = batch_clock_at env batch_idx
      in if interval_elapsed current_time (s2_last_checkpoint_time st1) then
           (let c = (s2_checkpoint st1)
                      \<lparr>step2_batch := Some (batch_idx + 1),
                       mca_created := Some (total_mca_created st1)\<rparr>
            in s2_batches env tfs bx by' bs me rest
                 (st1\<lparr>s2_checkpoint := c, s2_saved := s2_saved st1 @ [c],
                      s2_last_checkpoint_time := current_time\<rparr>))
         else s2_batches env tfs bx by' bs me rest st1)"

text \<open>The start of \<open>s2\<close> before any batch: nothing saved, the skip-set scanned from the
  output directory (lines 552-553), \<open>last_checkpoint_time\<close> of line 559.\<close>

definition s2_start :: "s2_env \<Rightarrow> string list \<Rightarrow> checkpoint \<Rightarrow> s2_state" where
  "s2_start env on_disk ckpt =
     \<lparr>s2_checkpoint = ckpt, s2_saved = [], skip_set = set on_disk,
      mca_written = [], mca_attempted = [], total_mca_created = 0,
      s2_last_checkpoint_time = batch_clock_start env\<rparr>"

text \<open>Lines 542-628 of \<open>s2\<close>, after the floor \<open>me\<close> is known: \<open>start_batch\<close> is the cursor
  read at line 506, \<open>c1\<close> the dictionary and \<open>saves\<close> the documents saved so far. The
  final count of line 611 is of the files that were there and the ones written.\<close>

definition s2_generate ::
  "s2_env \<Rightarrow> string list \<Rightarrow> string list \<Rightarrow> int \<Rightarrow> int \<Rightarrow> int \<Rightarrow> int \<Rightarrow> int
     \<Rightarrow> checkpoint \<Rightarrow> checkpoint list \<Rightarrow> bool \<times> s2_state" where
  "s2_generate env tfs on_disk bx by' bs start_batch me c1 saves =
     (let total_batches = (int (length tfs) + bs - 1) div bs;
          st = s2_batches env tfs bx by' bs me [start_batch..total_batches - 1]
                 ((s2_start env on_disk c1)\<lparr>s2_saved := saves\<rparr>);
          final_count = length (remdups (on_disk @ map fst (mca_written st)));
          c2 = (s2_checkpoint st)
                 \<lparr>step2_complete := Some True, final_mca_count := Some final_count\<rparr>
      in (True, st\<lparr>s2_checkpoint := c2, s2_saved := s2_saved st @ [c2]\<rparr>))"

text \<open>\<open>s2\<close> (lines 492-628). \<open>tfs\<close> is the sorted glob of the projected directory and
  \<open>on_disk\<close> the names of the region files in the output directory at the start. A batch
  size of zero raises at line 503.\<close>

definition s2 ::
  "s2_env \<Rightarrow> string list \<Rightarrow> string list \<Rightarrow> int \<Rightarrow> int \<Rightarrow> int \<Rightarrow> checkpoint
     \<Rightarrow> py_error + bool \<times> s2_state" where
  "s2 env tfs on_disk bx by' bs ckpt =
     (if tfs = [] then Inr (False, s2_start env on_disk ckpt)
      else if bs = 0 then Inl ZeroDivisionError
      else
        (let start_batch = (case step2_batch ckpt of None \<Rightarrow> 0 | Some n \<Rightarrow> n);
             (me, c1, saves) = elevation_floor (read_raster env) tfs bx by' ckpt
         in Inr (s2_generate env tfs on_disk bx by' bs start_batch me c1 saves)))"

subsection \<open>The driver\<close>

text \<open>
  \<open>glob.glob(os.path.join(dir, "*.tif"))\<close> of a directory that holds the names \<open>names\<close>,
  sorted as line 497 does: the names that end in \<open>.tif\<close> and do not start with a dot, in
  the order of their characters.
\<close>

definition tif_name :: "string \<Rightarrow> bool" where
  "tif_name f \<longleftrightarrow> 4 \<le> length f \<and> drop (length f - 4) f = ''.tif'' \<and> hd f \<noteq> CHR ''.''"

definition glob_tif_sorted :: "string set \<Rightarrow> string list" where
  "glob_tif_sorted names = sorted_list_of_set {f \<in> names. tif_name f}"

text \<open>How a run of \<open>main\<close> ends: its stages returned \<open>ok\<close>, an exception reached the handler
  of line 731, or the resumed checkpoint named no known step (line 707).\<close>

datatype run_outcome = Finished bool | Raised py_error | Unknown_step

text \<open>Lines 710 and 724, \<open>if ok: pm.delete_checkpoint()\<close>: the checkpoint file left behind.\<close>

definition checkpoint_after :: "bool \<Rightarrow> checkpoint_file \<Rightarrow> checkpoint_file" where
  "checkpoint_after ok file = (if ok then Missing else file)"

text \<open>
  \<open>main\<close> for a new project (lines 712-724). \<open>get_config\<close> has saved \<open>cfg\<close>; \<open>input_tifs\<close>
  is the glob of the input directory, \<open>projected\<close> the names in the projected directory
  and \<open>on_disk\<close> the region files in the output directory. Stage 2 globs the projected
  directory as stage 1 left it and works on the dictionary that stage 1 updated. A mode
  other than the three leaves \<open>ok\<close> unbound at line 724. The result is the outcome and
  the checkpoint file left behind.
\<close>

definition main_new ::
  "s1_env \<Rightarrow> s2_env \<Rightarrow> string list \<Rightarrow> string set \<Rightarrow> string list \<Rightarrow> checkpoint
     \<Rightarrow> run_outcome \<times> checkpoint_file" where
  "main_new env1 env2 input_tifs projected on_disk cfg =
     (if mode cfg = ''project'' then
        (let (ok, st) = s1 env1 input_tifs projected (crs cfg) cfg
         in (Finished ok,
             checkpoint_after ok (checkpoint_on_disk (Document cfg) (saved_checkpoints st))))
      else if mode cfg = ''generate'' then
        (case s2 env2 (glob_tif_sorted projected) on_disk (cfg_bx cfg) (cfg_by cfg) (cfg_bs cfg)
                cfg of
           Inl e \<Rightarrow> (Raised e, Document cfg)
         | Inr (ok, st2) \<Rightarrow>
             (Finished ok, checkpoint_after ok (checkpoint_on_disk (Document cfg) (s2_saved st2))))
      else if mode cfg = ''all'' then
        (let (ok1, st) = s1 env1 input_tifs projected (crs cfg) cfg;
             file1 = checkpoint_on_disk (Document cfg) (saved_checkpoints st);
             c = checkpoint_data st
         in if ok1 then
              (case s2 env2 (glob_tif_sorted (projected_files st)) on_disk (cfg_bx c) (cfg_by c)
                      (cfg_bs c) c of
                 Inl e \<Rightarrow> (Raised e, file1)
               | Inr (ok, st2) \<Rightarrow>
                   (Finished ok, checkpoint_after ok (checkpoint_on_disk file1 (s2_saved st2))))
            else (Finished False, file1))
      else (Raised UnboundLocalError, Document cfg))"

text \<open>
  \<open>main\<close> for a resumed project (lines 695-710), after \<open>resume_project\<close> returned the
  checkpoint \<open>ckpt\<close>: the stored step selects the stage, and stage 2 follows stage 1
  when the stored mode is \<open>all\<close> or \<open>All\<close>.
\<close>

definition main_resume ::
  "s1_env \<Rightarrow> s2_env \<Rightarrow> string list \<Rightarrow> string set \<Rightarrow> string list \<Rightarrow> checkpoint
     \<Rightarrow> run_outcome \<times> checkpoint_file" where
  "main_resume env1 env2 input_tifs projected on_disk ckpt =
     (if current_step ckpt = Some ''project'' then
        (let (ok1, st) = s1 env1 input_tifs projected (crs ckpt) ckpt;
             file1 = checkpoint_on_disk (Document ckpt) (saved_checkpoints st);
             c = checkpoint_data st
         in if ok1 \<and> (mode c = ''all'' \<or> mode c = ''All'') then
              (case s2 env2 (glob_tif_sorted (projected_files st)) on_disk (cfg_bx c) (cfg_by c)
                      (cfg_bs c) c of
                 Inl e \<Rightarrow> (Raised e, file1)
               | Inr (ok, st2) \<Rightarrow>
                   (Finished ok, checkpoint_after ok (checkpoint_on_disk file1 (s2_saved st2))))
            else (Finished ok1, checkpoint_after ok1 file1))
      else if current_step ckpt = Some ''generate'' then
        (case s2 env2 (glob_tif_sorted projected) on_disk (cfg_bx ckpt) (cfg_by ckpt)
                (cfg_bs ckpt) ckpt of
           Inl e \<Rightarrow> (Raised e, Document ckpt)
         | Inr (ok, st2) \<Rightarrow>
             (Finished ok, checkpoint_after ok (checkpoint_on_disk (Document ckpt) (s2_saved st2))))
      else (Unknown_step, Document ckpt))"

subsection \<open>Notions used to state the properties\<close>

text \<open>The cells of a tile that pass the nodata mask of line 268 (none for a tile that
  cannot be read), and the samples of a batch in the order in which lines 281-282 and
  574-576 process them.\<close>

definition valid_cells :: "raster_reader \<Rightarrow> int \<Rightarrow> int \<Rightarrow> string \<Rightarrow> cell list" where
  "valid_cells rd bx by' tp =
     (case rd tp bx by' of
        None \<Rightarrow> []
      | Some cells \<Rightarrow> filter (\<lambda>(x, z, y). y \<noteq> nodata_default) cells)"

definition batch_samples :: "raster_reader \<Rightarrow> int \<Rightarrow> int \<Rightarrow> string list \<Rightarrow> cell list" where
  "batch_samples rd bx by' batch_files = concat (map (valid_cells rd bx by') batch_files)"

definition cell_key :: "cell \<Rightarrow> int \<times> int" where
  "cell_key c = (case c of (x, z, y) \<Rightarrow> (x, z))"

definition cell_item :: "cell \<Rightarrow> (int \<times> int) \<times> int" where
  "cell_item c = (case c of (x, z, y) \<Rightarrow> ((x, z), y))"

text \<open>The region key of an item of the coordinate map (lines 298-299).\<close>

definition coord_region :: "(int \<times> int) \<times> int \<Rightarrow> int \<times> int" where
  "coord_region item = (case item of ((x, z), y) \<Rightarrow> (region x, region z))"

text \<open>The cursor \<open>start_idx\<close> that \<open>s1\<close> reads at line 416 and the numbered items its loop
  runs over (line 439).\<close>

definition s1_start_idx :: "checkpoint \<Rightarrow> int" where
  "s1_start_idx ckpt = (case step1_progress ckpt of None \<Rightarrow> 0 | Some n \<Rightarrow> n)"

definition s1_items :: "string list \<Rightarrow> checkpoint \<Rightarrow> (int \<times> string) list" where
  "s1_items tfs ckpt = enumerate_from (s1_start_idx ckpt + 1) (py_slice_from tfs (s1_start_idx ckpt))"

text \<open>A checkpoint file that is there and does not load.\<close>

definition fails_to_load :: "checkpoint_file \<Rightarrow> bool" where
  "fails_to_load cf = (cf = Unreadable \<or> cf = Unparsable)"

text \<open>The chunk that lines 336-346 build from one entry of \<open>chunks_data\<close>.\<close>

definition chunk_doc_of :: "codec \<Rightarrow> int \<Rightarrow> (int \<times> int) \<times> block_dict \<Rightarrow> chunk_doc" where
  "chunk_doc_of cd min_elev e =
     (case e of ((chunk_x, chunk_z), block_coords) \<Rightarrow>
        \<lparr>chk_x = chunk_x, chk_z = chunk_z, chk_blocks = place_blocks cd min_elev block_coords\<rparr>)"

text \<open>Reading \<open>region_data[rk][ck][bk]\<close> without creating anything, and the shape of a
  nested dictionary: no key twice at any of the three levels.\<close>

definition lookup3 :: "region_dict \<Rightarrow> int \<times> int \<Rightarrow> int \<times> int \<Rightarrow> int \<times> int \<Rightarrow> int option" where
  "lookup3 rd rk ck bk =
     (case map_of rd rk of
        None \<Rightarrow> None
      | Some ch \<Rightarrow> (case map_of ch ck of None \<Rightarrow> None | Some bl \<Rightarrow> map_of bl bk))"

definition wf_regions :: "region_dict \<Rightarrow> bool" where
  "wf_regions rd \<longleftrightarrow>
     distinct (map fst rd) \<and>
     (\<forall>e \<in> set rd. distinct (map fst (snd e)) \<and>
        (\<forall>c \<in> set (snd e). distinct (map fst (snd c))))"

text \<open>The coordinate map of batch \<open>batch_idx\<close> (lines 566-576) and the batch indices
  that the loop of line 565 runs over, from the cursor stored in the dictionary.\<close>

definition batch_coords_at :: "raster_reader \<Rightarrow> string list \<Rightarrow> int \<Rightarrow> int \<Rightarrow> int \<Rightarrow> int \<Rightarrow> coords" where
  "batch_coords_at rd tfs bx by' bs batch_idx =
     aggregate_batch rd bx by'
       (py_slice tfs (batch_idx * bs) (min (batch_idx * bs + bs) (int (length tfs)))) []"

definition s2_batch_range :: "string list \<Rightarrow> int \<Rightarrow> checkpoint \<Rightarrow> int list" where
  "s2_batch_range tfs bs ckpt =
     [(case step2_batch ckpt of None \<Rightarrow> 0 | Some n \<Rightarrow> n)..(int (length tfs) + bs - 1) div bs - 1]"

text \<open>The two halves of one iteration of that loop: the emission of lines 578-589 and
  the periodic save of lines 592-606.\<close>

definition s2_emit ::
  "s2_env \<Rightarrow> string list \<Rightarrow> int \<Rightarrow> int \<Rightarrow> int \<Rightarrow> int \<Rightarrow> int \<Rightarrow> s2_state \<Rightarrow> s2_state" where
  "s2_emit env tfs bx by' bs me batch_idx st =
     (let batch_coords = batch_coords_at (read_raster env) tfs bx by' bs batch_idx in
      if batch_coords \<noteq> [] then
        (let em = generate_mca_batch (region_codec env) batch_coords bx by' me
                    (skip_set st) (is_dsm (s2_checkpoint st))
         in st\<lparr>skip_set := existing_mcas_set em,
               mca_written := mca_written st @ written em,
               mca_attempted := mca_attempted st @ attempted em,
               total_mca_created := total_mca_created st + mca_count em\<rparr>)
      else st)"

definition s2_save :: "s2_env \<Rightarrow> int \<Rightarrow> s2_state \<Rightarrow> s2_state" where
  "s2_save env batch_idx st1 =
     (if interval_elapsed (batch_clock_at env batch_idx) (s2_last_checkpoint_time st1) then
        (let c = (s2_checkpoint st1)
                   \<lparr>step2_batch := Some (batch_idx + 1),
                    mca_created := Some (total_mca_created st1)\<rparr>
         in st1\<lparr>s2_checkpoint := c, s2_saved := s2_saved st1 @ [c],
                 s2_last_checkpoint_time := batch_clock_at env batch_idx\<rparr>)
      else st1)"

subsection \<open>Example surroundings\<close>

text \<open>A raster reader with three tiles: \<open>a.tif\<close> repeats the column \<open>(1, 2)\<close> and has a
  nodata cell, \<open>b.tif\<close> has the column \<open>(1, 2)\<close> again, and any other path cannot be read.\<close>

definition demo_reader :: raster_reader where
  "demo_reader p bx by' =
     (if p = ''a.tif'' then Some [(1, 2, 10), (1, 2, 20), (7, 7, - 9999), (8, 8, 1)]
      else if p = ''b.tif'' then Some [(3, 3, 5), (1, 2, 30), (4, 4, 6)]
      else None)"

text \<open>A container library that accepts every call.\<close>

definition demo_codec :: codec where
  "demo_codec = \<lparr>set_block_ok = (\<lambda>x y z. True), add_chunk_ok = (\<lambda>rk ck. True), save_ok = (\<lambda>f. True)\<rparr>"

text \<open>The document \<open>get_config\<close> saves for a new project with the default answers.\<close>

definition demo_config :: checkpoint where
  "demo_config =
     \<lparr>mode = ''project'', is_dsm = False, crs = ''EPSG:6677'', cfg_bx = - 36000,
      cfg_by = - 29000, cfg_bs = 10, project_name = ''demo'', current_step = None,
      step1_progress = None, step1_complete = None, step2_batch = None, mca_created = None,
      min_elevation = None, step2_complete = None, final_mca_count = None\<rparr>"

text \<open>A reader whose only tile, \<open>hill.tif\<close>, lies wholly above zero.\<close>

definition hill_reader :: raster_reader where
  "hill_reader p bx by' = (if p = ''hill.tif'' then Some [(0, 0, 5), (1, 0, 8)] else None)"

text \<open>Surroundings of a generation stage: the demo tiles, the accepting library, and a
  clock that never reaches the checkpoint interval.\<close>

definition demo_s2_env :: s2_env where
  "demo_s2_env =
     \<lparr>read_raster = demo_reader, region_codec = demo_codec,
      batch_clock_at = (\<lambda>i. 0), batch_clock_start = 0\<rparr>"

text \<open>Surroundings of a reprojection stage. In \<open>failing_env\<close> every tile fails; in
  \<open>flaky_env\<close> only \<open>b.tif\<close> is reprojected. The clock advances a minute per item, so every
  successful iteration saves a checkpoint.\<close>

definition failing_env :: s1_env where
  "failing_env = \<lparr>reproject_tiff = (\<lambda>f. Failed_no_output), clock_at = (\<lambda>i. 60000000 * i), clock_start = 0\<rparr>"

definition flaky_env :: s1_env where
  "flaky_env =
     \<lparr>reproject_tiff = (\<lambda>f. if f = ''b.tif'' then Reprojected else Failed_no_output),
      clock_at = (\<lambda>i. 60000000 * i), clock_start = 0\<rparr>"

text \<open>A batch with two columns in region \<open>(0, 0)\<close> outside the guard of line 341 (400 is
  above 319, -2 is below the floor 0), and the first region that its emission writes.\<close>

definition demo_batch :: coords where
  "demo_batch = [((0, 0), 5), ((- 1, 600), 7), ((17, 3), 400), ((0, 1), - 2)]"

definition demo_region :: region_doc where
  "demo_region =
     \<lparr>reg_x = 0, reg_z = 0,
      reg_chunks = [\<lparr>chk_x = 0, chk_z = 0, chk_blocks = [(0, 5, 0)]\<rparr>,
                    \<lparr>chk_x = 1, chk_z = 0, chk_blocks = []\<rparr>]\<rparr>"

section \<open>Properties\<close>

subsection \<open>The coordinate partitioner\<close>

lemma and_15_mod: "(v::int) AND 15 = v mod 16"
  using take_bit_eq_mask [of 4 v] by (simp add: take_bit_eq_mod mask_eq_exp_minus_1)

lemma and_31_mod: "(v::int) AND 31 = v mod 32"
  using take_bit_eq_mask [of 5 v] by (simp add: take_bit_eq_mod mask_eq_exp_minus_1)

lemma radix_sum: "(v::int) div 512 * 512 + (v div 16) mod 32 * 16 + v mod 16 = v"
proof -
  have a: "v div 512 = (v div 16) div 32"
    using zdiv_zmult2_eq [of 32 v 16] by simp
  have b: "(v div 16) div 32 * 32 + (v div 16) mod 32 = v div 16"
    by (rule div_mult_mod_eq)
  have c: "v div 16 * 16 + v mod 16 = v"
    by (rule div_mult_mod_eq)
  show ?thesis
    unfolding a using b c by linarith
qed

lemma recombine_axis: "region v * 512 + chunk v * 16 + block v = v"
  unfolding region_def chunk_def block_def and_15_mod and_31_mod drop_bit_eq_div
  using radix_sum [of v] by simp

lemma chunk_range: "0 \<le> chunk v \<and> chunk v < 32"
  by (simp add: chunk_def and_31_mod)

lemma block_range: "0 \<le> block v \<and> block v < 16"
  by (simp add: block_def and_15_mod)

lemma recombine_decompose: "recombine (decompose x z) = (x, z)"
  by (simp add: recombine_def decompose_def recombine_axis)

lemma decompose_inject: "decompose x z = decompose x' z' \<Longrightarrow> x = x' \<and> z = z'"
proof -
  assume "decompose x z = decompose x' z'"
  then have "recombine (decompose x z) = recombine (decompose x' z')" by simp
  then show "x = x' \<and> z = z'" by (simp only: recombine_decompose prod.inject)
qed

text \<open>
  Claim C1. For all integers \<open>x\<close> and \<open>z\<close>, negative ones included, the region, chunk and
  block keys computed by \<open>organize_by_region\<close> recombine to \<open>(x, z)\<close>, and two coordinates
  with the same three keys are the same coordinate: the decomposition is total and
  collision-free.
\<close>

theorem decompose_recombine_roundtrip:
  "recombine (decompose x z) = (x, z) \<and>
   (decompose x z = decompose x' z' \<longrightarrow> (x, z) = (x', z'))"
proof
  show "recombine (decompose x z) = (x, z)" by (rule recombine_decompose)
  show "decompose x z = decompose x' z' \<longrightarrow> (x, z) = (x', z')"
  proof
    assume "decompose x z = decompose x' z'"
    then have "recombine (decompose x z) = recombine (decompose x' z')" by simp
    then show "(x, z) = (x', z')" by (simp only: recombine_decompose)
  qed
qed

theorem decompose_recombine_roundtrip_witness:
  "decompose (- 513) 1000 = ((- 2, 1), (31, 30), (15, 8)) \<and>
   recombine ((- 2, 1), (31, 30), (15, 8)) = (- 513, 1000) \<and>
   decompose (- 513) 1000 = decompose (- 513) 1000 \<and>
   ((- 513, 1000) :: int \<times> int) = (- 513, 1000)"
  using decompose_recombine_roundtrip [of "- 513" 1000 "- 513" 1000]
  by (simp add: decompose_def region_def chunk_def block_def drop_bit_eq_div
      and_15_mod and_31_mod)

text \<open>
  Claim C8. The region coordinate is a floor shift by nine bits: 511 lies in region 0,
  512 in region 1, -1 and -512 in region -1, and -513 in region -2.
\<close>

theorem region_boundaries:
  "region 511 = 0 \<and> region 512 = 1 \<and> region (- 1) = - 1 \<and> region (- 512) = - 1 \<and>
   region (- 513) = - 2"
  by (simp add: region_def drop_bit_eq_div)

subsection \<open>Dictionaries and the batch map\<close>

lemma fold_update_map_of:
  "map_of (fold (\<lambda>(k, v) acc. AList.update k v acc) items d) = map_of d ++ map_of (rev items)"
proof (induction items arbitrary: d)
  case Nil
  show ?case by simp
next
  case (Cons p items)
  obtain k v where p: "p = (k, v)" by (cases p)
  show ?case
    by (auto simp: p Cons.IH update_conv' map_add_def fun_eq_iff split: option.splits)
qed

lemma fold_update_distinct:
  "distinct (map fst d) \<Longrightarrow>
   distinct (map fst (fold (\<lambda>(k, v) acc. AList.update k v acc) items d))"
proof (induction items arbitrary: d)
  case Nil
  then show ?case by simp
next
  case (Cons p items)
  obtain k v where p: "p = (k, v)" by (cases p)
  show ?case using Cons.prems by (simp add: p Cons.IH distinct_update)
qed

lemma dict_update_map_of: "map_of (dict_update d other) = map_of d ++ map_of (rev other)"
  by (simp add: dict_update_def fold_update_map_of)

lemma dict_update_distinct: "distinct (map fst d) \<Longrightarrow> distinct (map fst (dict_update d other))"
  by (simp add: dict_update_def fold_update_distinct)

lemma build_coords_fold:
  "build_coords cells = fold (\<lambda>(k, v) acc. AList.update k v acc) (map cell_item cells) []"
proof -
  have "fold (\<lambda>(x, z, y) coords_data. AList.update (x, z) y coords_data) cells d
      = fold (\<lambda>(k, v) acc. AList.update k v acc) (map cell_item cells) d" for d
    by (induction cells arbitrary: d) (auto simp: cell_item_def)
  then show ?thesis by (simp add: build_coords_def)
qed

lemma build_coords_map_of: "map_of (build_coords cells) = map_of (rev (map cell_item cells))"
  by (simp add: build_coords_fold fold_update_map_of)

lemma build_coords_distinct: "distinct (map fst (build_coords cells))"
  by (simp add: build_coords_fold fold_update_distinct)

lemma map_of_rev_distinct: "distinct (map fst xs) \<Longrightarrow> map_of (rev xs) = map_of xs"
  by (rule map_of_inject_set [THEN iffD2]) (simp_all add: rev_map [symmetric])

lemma process_tiff_simple_coords:
  "snd (process_tiff_simple rd tp bx by' nodata_default) =
     (if valid_cells rd bx by' tp = [] then None
      else Some (build_coords (valid_cells rd bx by' tp)))"
  by (simp add: process_tiff_simple_def valid_cells_def Let_def split: option.splits)

lemma build_coords_nonempty: "cells \<noteq> [] \<Longrightarrow> build_coords cells \<noteq> []"
proof -
  assume "cells \<noteq> []"
  then obtain c where "c \<in> set cells" by (cases cells) auto
  then have "map_of (rev (map cell_item cells)) (fst (cell_item c)) \<noteq> None"
    by (metis (no_types, lifting) image_eqI image_set map_of_eq_None_iff set_rev)
  then have "map_of (build_coords cells) (fst (cell_item c)) \<noteq> None"
    by (simp add: build_coords_map_of)
  then show ?thesis by auto
qed

lemma aggregate_batch_map_of:
  "map_of (aggregate_batch rd bx by' batch_files d) =
     map_of d ++ map_of (rev (map cell_item (batch_samples rd bx by' batch_files)))"
proof (induction batch_files arbitrary: d)
  case Nil
  show ?case by (simp add: batch_samples_def)
next
  case (Cons tp rest)
  let ?v = "valid_cells rd bx by' tp"
  show ?case
  proof (cases "?v = []")
    case True
    then show ?thesis
      using Cons.IH [of d] by (simp add: process_tiff_simple_coords batch_samples_def)
  next
    case False
    have m: "map_of (rev (build_coords ?v)) = map_of (rev (map cell_item ?v))"
      by (simp add: map_of_rev_distinct build_coords_distinct build_coords_map_of)
    show ?thesis
      using False Cons.IH [of "dict_update d (build_coords ?v)"]
      by (simp add: process_tiff_simple_coords build_coords_nonempty batch_samples_def
          dict_update_map_of m rev_map)
  qed
qed

lemma aggregate_batch_distinct:
  "distinct (map fst d) \<Longrightarrow> distinct (map fst (aggregate_batch rd bx by' batch_files d))"
proof (induction batch_files arbitrary: d)
  case Nil
  then show ?case by simp
next
  case (Cons tp rest)
  then show ?case
    by (simp add: dict_update_distinct split: option.splits)
qed

lemma map_of_last_occurrence:
  assumes "\<forall>c \<in> set post. cell_key c \<noteq> (x, z)"
  shows "map_of (rev (map cell_item (pre @ (x, z, y) # post))) (x, z) = Some y"
proof -
  have "(x, z) \<notin> fst ` set (rev (map cell_item post))"
    using assms by (auto simp: cell_item_def cell_key_def)
  then have "map_of (rev (map cell_item post)) (x, z) = None"
    by (simp add: map_of_eq_None_iff)
  then show ?thesis
    by (simp add: cell_item_def map_add_def)
qed

text \<open>
  Claim C7. Last write wins, per key. Within one tile: if the valid cells of the tile
  are \<open>pre1 @ (x1, z1, y1) # post1\<close> and no cell of \<open>post1\<close> has the key \<open>(x1, z1)\<close>, the
  tile's dictionary maps \<open>(x1, z1)\<close> to \<open>y1\<close>. Across the tiles of a batch, in processing
  order: if the samples of the batch are \<open>pre @ (x, z, y) # post\<close> and no cell of \<open>post\<close>
  has the key \<open>(x, z)\<close>, the batch map holds \<open>y\<close> at \<open>(x, z)\<close>. Both dictionaries hold each
  key once.
\<close>

theorem batch_last_write_wins:
  "(valid_cells rd bx by' tp = pre1 @ (x1, z1, y1) # post1 \<and>
      (\<forall>c \<in> set post1. cell_key c \<noteq> (x1, z1)) \<longrightarrow>
      (\<exists>cs. snd (process_tiff_simple rd tp bx by' nodata_default) = Some cs \<and>
            map_of cs (x1, z1) = Some y1 \<and> distinct (map fst cs))) \<and>
   (batch_samples rd bx by' batch_files = pre @ (x, z, y) # post \<and>
      (\<forall>c \<in> set post. cell_key c \<noteq> (x, z)) \<longrightarrow>
      map_of (aggregate_batch rd bx by' batch_files []) (x, z) = Some y \<and>
      distinct (map fst (aggregate_batch rd bx by' batch_files [])))"
proof (intro conjI impI)
  assume a: "valid_cells rd bx by' tp = pre1 @ (x1, z1, y1) # post1 \<and>
      (\<forall>c \<in> set post1. cell_key c \<noteq> (x1, z1))"
  then have ne: "valid_cells rd bx by' tp \<noteq> []" by simp
  have "map_of (build_coords (valid_cells rd bx by' tp)) (x1, z1) = Some y1"
    using a map_of_last_occurrence [of post1 x1 z1 pre1 y1]
    by (simp add: build_coords_map_of)
  then show "\<exists>cs. snd (process_tiff_simple rd tp bx by' nodata_default) = Some cs \<and>
            map_of cs (x1, z1) = Some y1 \<and> distinct (map fst cs)"
    using ne by (simp add: process_tiff_simple_coords build_coords_distinct)
next
  assume b: "batch_samples rd bx by' batch_files = pre @ (x, z, y) # post \<and>
      (\<forall>c \<in> set post. cell_key c \<noteq> (x, z))"
  show "map_of (aggregate_batch rd bx by' batch_files []) (x, z) = Some y"
    using b map_of_last_occurrence [of post x z pre y]
    by (simp add: aggregate_batch_map_of)
  show "distinct (map fst (aggregate_batch rd bx by' batch_files []))"
    by (simp add: aggregate_batch_distinct)
qed

theorem batch_last_write_wins_witness:
  "valid_cells demo_reader 0 0 ''a.tif'' = [(1, 2, 10)] @ (1, 2, 20) # [(8, 8, 1)] \<and>
   cell_key (8, 8, 1) \<noteq> (1, 2) \<and>
   (\<exists>cs. snd (process_tiff_simple demo_reader ''a.tif'' 0 0 nodata_default) = Some cs \<and>
         map_of cs (1, 2) = Some 20 \<and> distinct (map fst cs)) \<and>
   batch_samples demo_reader 0 0 [''a.tif'', ''x.tif'', ''b.tif'']
     = [(1, 2, 10), (1, 2, 20), (8, 8, 1), (3, 3, 5)] @ (1, 2, 30) # [(4, 4, 6)] \<and>
   cell_key (4, 4, 6) \<noteq> (1, 2) \<and>
   map_of (aggregate_batch demo_reader 0 0 [''a.tif'', ''x.tif'', ''b.tif''] []) (1, 2) = Some 30 \<and>
   distinct (map fst (aggregate_batch demo_reader 0 0 [''a.tif'', ''x.tif'', ''b.tif''] []))"
proof -
  have h1: "valid_cells demo_reader 0 0 ''a.tif'' = [(1, 2, 10)] @ (1, 2, 20) # [(8, 8, 1)]"
    by (simp add: valid_cells_def demo_reader_def nodata_default_def)
  have k1: "cell_key (8, 8, 1) \<noteq> (1, 2)"
    by (simp add: cell_key_def)
  have h2: "batch_samples demo_reader 0 0 [''a.tif'', ''x.tif'', ''b.tif'']
        = [(1, 2, 10), (1, 2, 20), (8, 8, 1), (3, 3, 5)] @ (1, 2, 30) # [(4, 4, 6)]"
    by (simp add: batch_samples_def valid_cells_def demo_reader_def nodata_default_def)
  have k2: "cell_key (4, 4, 6) \<noteq> (1, 2)"
    by (simp add: cell_key_def)
  have b1: "\<forall>c \<in> set [(8, 8, 1)]. cell_key c \<noteq> (1, 2)" using k1 by simp
  have b2: "\<forall>c \<in> set [(4, 4, 6)]. cell_key c \<noteq> (1, 2)" using k2 by simp
  show ?thesis
    using h1 k1 h2 k2 b1 b2
      batch_last_write_wins [of demo_reader 0 0 "''a.tif''" "[(1, 2, 10)]" 1 2 20
        "[(8, 8, 1)]" "[''a.tif'', ''x.tif'', ''b.tif'']"
        "[(1, 2, 10), (1, 2, 20), (8, 8, 1), (3, 3, 5)]" 1 2 30 "[(4, 4, 6)]"]
    by blast
qed

subsection \<open>Emission and the skip-set\<close>

lemma organize_by_region_unfold:
  "organize_by_region cs =
     fold (\<lambda>((x, z), y) region_data.
             region_insert region_data (region x, region z) (chunk x, chunk z)
               (block x, block z) y) cs []"
  by (simp add: organize_by_region_def decompose_def)

lemma region_insert_keys:
  "fst ` set (region_insert rd rk ck bk y) = insert rk (fst ` set rd)"
  by (simp add: region_insert_def Let_def dom_update)

lemma organize_fold_keys:
  "fst ` set (fold (\<lambda>((x, z), y) region_data.
             region_insert region_data (region x, region z) (chunk x, chunk z)
               (block x, block z) y) cs rd) = fst ` set rd \<union> coord_region ` set cs"
proof (induction cs arbitrary: rd)
  case Nil
  show ?case by simp
next
  case (Cons item cs)
  obtain x z y where item: "item = ((x, z), y)" by (cases item) auto
  show ?case
    by (simp add: item Cons.IH region_insert_keys coord_region_def)
qed

lemma organize_by_region_keys:
  "fst ` set (organize_by_region cs) = coord_region ` set cs"
  by (simp add: organize_by_region_unfold organize_fold_keys)

lemma emit_regions_all_skipped:
  "(\<forall>e \<in> set rd. mca_filename (fst (fst e)) (snd (fst e)) \<in> existing_mcas_set st) \<Longrightarrow>
   emit_regions cd me dsm rd st = st"
proof (induction rd)
  case Nil
  show ?case by simp
next
  case (Cons e rd)
  obtain rx rz chunks where e: "e = ((rx, rz), chunks)" by (cases e) auto
  show ?case using Cons by (simp add: e)
qed

lemma emit_regions_effects:
  "existing_mcas_set st \<subseteq> existing_mcas_set (emit_regions cd me dsm rd st) \<and>
   set (attempted (emit_regions cd me dsm rd st)) \<subseteq> set (attempted st) \<union> - existing_mcas_set st \<and>
   fst ` set (written (emit_regions cd me dsm rd st))
     \<subseteq> fst ` set (written st) \<union> - existing_mcas_set st"
proof (induction rd arbitrary: st)
  case Nil
  show ?case by simp
next
  case (Cons e rd)
  obtain rx rz chunks where e: "e = ((rx, rz), chunks)" by (cases e) auto
  let ?f = "mca_filename rx rz"
  show ?case
  proof (cases "?f \<in> existing_mcas_set st")
    case True
    then show ?thesis using Cons.IH [of st] by (simp add: e)
  next
    case False
    let ?st1 = "st\<lparr>attempted := attempted st @ [?f]\<rparr>"
    show ?thesis
    proof (cases "generate_mca_file cd rx rz chunks me dsm")
      case None
      then show ?thesis using False Cons.IH [of ?st1] by (auto simp: e Let_def)
    next
      case (Some reg)
      show ?thesis
      proof (cases "save_ok cd ?f")
        case True
        let ?st2 = "?st1\<lparr>existing_mcas_set := insert ?f (existing_mcas_set ?st1),
                       written := written ?st1 @ [(?f, reg)],
                       mca_count := mca_count ?st1 + 1\<rparr>"
        show ?thesis using False Some True Cons.IH [of ?st2] by (auto simp: e Let_def)
      next
        case f2: False
        then show ?thesis using False Some Cons.IH [of ?st1] by (auto simp: e Let_def)
      qed
    qed
  qed
qed

text \<open>
  Claim C2. No file of the skip-set is built or written by an emission: its name is
  neither among the builds attempted nor among the files written. When the skip-set
  holds the region file name of every coordinate of the batch, the emission writes
  nothing, attempts nothing, counts zero and leaves the skip-set as it was.
\<close>

theorem generate_mca_batch_skips_existing:
  "(\<forall>f \<in> skip.
      f \<notin> set (attempted (generate_mca_batch cd batch_coords bx by' me skip dsm)) \<and>
      f \<notin> fst ` set (written (generate_mca_batch cd batch_coords bx by' me skip dsm))) \<and>
   ((\<forall>item \<in> set batch_coords.
       mca_filename (fst (coord_region item)) (snd (coord_region item)) \<in> skip) \<longrightarrow>
    generate_mca_batch cd batch_coords bx by' me skip dsm =
      \<lparr>existing_mcas_set = skip, written = [], attempted = [], mca_count = 0\<rparr>)"
proof (intro conjI ballI impI)
  let ?st = "\<lparr>existing_mcas_set = skip, written = [], attempted = [], mca_count = 0\<rparr>"
  have eff: "set (attempted (emit_regions cd me dsm (organize_by_region batch_coords) ?st))
               \<subseteq> set (attempted ?st) \<union> - existing_mcas_set ?st \<and>
             fst ` set (written (emit_regions cd me dsm (organize_by_region batch_coords) ?st))
               \<subseteq> fst ` set (written ?st) \<union> - existing_mcas_set ?st"
    using emit_regions_effects [of ?st cd me dsm "organize_by_region batch_coords"] by blast
  fix f assume f: "f \<in> skip"
  show "f \<notin> set (attempted (generate_mca_batch cd batch_coords bx by' me skip dsm))"
    using eff f by (auto simp: generate_mca_batch_def)
  show "f \<notin> fst ` set (written (generate_mca_batch cd batch_coords bx by' me skip dsm))"
    using eff f unfolding generate_mca_batch_def by (simp add: subset_iff) blast
next
  let ?st = "\<lparr>existing_mcas_set = skip, written = [], attempted = [], mca_count = 0\<rparr>"
  assume all: "\<forall>item \<in> set batch_coords.
       mca_filename (fst (coord_region item)) (snd (coord_region item)) \<in> skip"
  have "\<forall>e \<in> set (organize_by_region batch_coords).
          mca_filename (fst (fst e)) (snd (fst e)) \<in> existing_mcas_set ?st"
  proof
    fix e assume "e \<in> set (organize_by_region batch_coords)"
    then have "fst e \<in> coord_region ` set batch_coords"
      using organize_by_region_keys [of batch_coords] by (metis imageI)
    then show "mca_filename (fst (fst e)) (snd (fst e)) \<in> existing_mcas_set ?st"
      using all by auto
  qed
  then show "generate_mca_batch cd batch_coords bx by' me skip dsm = ?st"
    unfolding generate_mca_batch_def by (rule emit_regions_all_skipped)
qed

theorem generate_mca_batch_skips_existing_witness:
  "mca_filename (region 0) (region 0) \<in> {''r.0.0.mca'', ''r.-1.1.mca'', ''r.9.9.mca''} \<and>
   mca_filename (region (- 1)) (region 600) \<in> {''r.0.0.mca'', ''r.-1.1.mca'', ''r.9.9.mca''} \<and>
   generate_mca_batch demo_codec [((0, 0), 5), ((- 1, 600), 7)] 0 0 0
       {''r.0.0.mca'', ''r.-1.1.mca'', ''r.9.9.mca''} False =
     \<lparr>existing_mcas_set = {''r.0.0.mca'', ''r.-1.1.mca'', ''r.9.9.mca''}, written = [],
      attempted = [], mca_count = 0\<rparr> \<and>
   ''r.0.0.mca'' \<in> {''r.0.0.mca''} \<and>
   attempted (generate_mca_batch demo_codec [((0, 0), 5), ((- 1, 600), 7)] 0 0 0
       {''r.0.0.mca''} False) = [''r.-1.1.mca''] \<and>
   ''r.0.0.mca'' \<notin> set (attempted (generate_mca_batch demo_codec [((0, 0), 5), ((- 1, 600), 7)]
       0 0 0 {''r.0.0.mca''} False)) \<and>
   ''r.0.0.mca'' \<notin> fst ` set (written (generate_mca_batch demo_codec
       [((0, 0), 5), ((- 1, 600), 7)] 0 0 0 {''r.0.0.mca''} False))"
proof -
  let ?bc = "[((0, 0), 5), ((- 1, 600), 7)] :: coords"
  let ?S = "{''r.0.0.mca'', ''r.-1.1.mca'', ''r.9.9.mca''}"
  have f1: "mca_filename (region 0) (region 0) \<in> ?S"
    by (simp add: mca_filename_def str_int_def str_nat.simps digit_char_def region_def)
  have f2: "mca_filename (region (- 1)) (region 600) \<in> ?S"
    by (simp add: mca_filename_def str_int_def str_nat.simps digit_char_def region_def
        drop_bit_eq_div)
  have hyp: "\<forall>item \<in> set ?bc.
      mca_filename (fst (coord_region item)) (snd (coord_region item)) \<in> ?S"
    using f1 f2 by (simp add: coord_region_def)
  have a: "attempted (generate_mca_batch demo_codec ?bc 0 0 0 {''r.0.0.mca''} False)
             = [''r.-1.1.mca'']"
    by (simp add: generate_mca_batch_def organize_by_region_def decompose_def region_insert_def dd_get_def
        region_def chunk_def block_def drop_bit_eq_div and_15_mod and_31_mod Let_def
        mca_filename_def str_int_def str_nat.simps digit_char_def generate_mca_file_def
        demo_codec_def)
  have m: "''r.0.0.mca'' \<in> {''r.0.0.mca''}" by simp
  show ?thesis
    using f1 f2 a m
      generate_mca_batch_skips_existing [of ?S demo_codec ?bc 0 0 0 False]
      generate_mca_batch_skips_existing [of "{''r.0.0.mca''}" demo_codec ?bc 0 0 0 False]
      hyp
    by blast
qed

subsection \<open>The elevation floor\<close>

text \<open>The sampling loop folds \<open>min\<close> over the per-tile minima, in order, from its start
  value; started at zero it never ends above zero.\<close>

lemma sample_floor_fold:
  "sample_floor rd bx by' tps me =
     fold min (List.map_filter (\<lambda>tp. fst (process_tiff_simple rd tp bx by' nodata_default)) tps) me"
proof (induction tps arbitrary: me)
  case Nil
  show ?case by (simp add: List.map_filter_simps)
next
  case (Cons tp tps)
  show ?case
    by (cases "fst (process_tiff_simple rd tp bx by' nodata_default)")
       (auto simp: Cons.IH List.map_filter_simps min_def)
qed

lemma fold_min_le_start: "fold min xs (m::int) \<le> m"
  by (induction xs arbitrary: m) (auto simp: min_def intro: order_trans)

lemma sample_floor_nonpositive: "sample_floor rd bx by' tps 0 \<le> 0"
  by (simp add: sample_floor_fold fold_min_le_start)

lemma fresh_floor_nonpositive:
  "min_elevation ckpt = None \<Longrightarrow> fst (elevation_floor rd tfs bx by' ckpt) \<le> 0"
  by (simp add: elevation_floor_def Let_def sample_floor_nonpositive)

text \<open>
  Claim C3, evaluated on a fresh run over one tile whose elevations are 5 and 8: the
  tile's minimum is 5, and the floor that is returned and saved is 0, the start value of
  the running minimum.
\<close>

theorem fresh_floor_is_capped_at_zero:
  "fst (process_tiff_simple hill_reader ''hill.tif'' 0 0 nodata_default) = Some 5 \<and>
   elevation_floor hill_reader [''hill.tif''] 0 0 demo_config =
     (0, demo_config\<lparr>min_elevation := Some 0\<rparr>, [demo_config\<lparr>min_elevation := Some 0\<rparr>])"
  by (simp add: process_tiff_simple_def hill_reader_def nodata_default_def elevation_floor_def
      demo_config_def Let_def)

subsection \<open>Stage 1\<close>

lemma s1_nonempty:
  "tfs \<noteq> [] \<Longrightarrow>
   s1 env tfs present target_crs ckpt =
     (let st = s1_loop env (s1_items tfs ckpt) (s1_start env present ckpt);
          c = (checkpoint_data st)
                \<lparr>step1_progress := Some (int (length tfs)), step1_complete := Some True\<rparr>
      in (True, st\<lparr>checkpoint_data := c, saved_checkpoints := saved_checkpoints st @ [c]\<rparr>))"
  by (simp add: s1_def s1_items_def s1_start_idx_def Let_def)

text \<open>
  Claim C4 as stated fails. Three tiles, the first and the third fail without output,
  the second is reprojected and a checkpoint is saved there: that checkpoint records the
  cursor 2 and the final one the cursor 3, both past the first item, which was logged as
  failed and has no output.
\<close>

theorem cursor_passes_failed_item:
  "reproject_tiff flaky_env ''a.tif'' = Failed_no_output \<and>
   s1_items [''a.tif'', ''b.tif'', ''c.tif''] demo_config
     = [(1, ''a.tif''), (2, ''b.tif''), (3, ''c.tif'')] \<and>
   map step1_progress (saved_checkpoints
       (snd (s1 flaky_env [''a.tif'', ''b.tif'', ''c.tif''] {} ''EPSG:6677'' demo_config)))
     = [Some 2, Some 3] \<and>
   ''a.tif'' \<notin> projected_files
       (snd (s1 flaky_env [''a.tif'', ''b.tif'', ''c.tif''] {} ''EPSG:6677'' demo_config)) \<and>
   error_log (snd (s1 flaky_env [''a.tif'', ''b.tif'', ''c.tif''] {} ''EPSG:6677'' demo_config))
     = [''a.tif'', ''c.tif'']"
  by (simp add: s1_def s1_items_def s1_start_idx_def flaky_env_def s1_start_def
      py_slice_from_def py_index_def demo_config_def Let_def interval_elapsed_def
      CHECKPOINT_INTERVAL_def)

lemma s1_loop_accounting:
  "processed_count (s1_loop env items st) + skipped_count (s1_loop env items st)
     + length (error_log (s1_loop env items st))
   = processed_count st + skipped_count st + length (error_log st) + length items"
proof (induction items arbitrary: st)
  case Nil
  show ?case by simp
next
  case (Cons p items)
  obtain i fn where p: "p = (i, fn)" by (cases p)
  show ?case
    by (cases "reproject_tiff env fn") (simp_all add: p Cons.IH Let_def)
qed

lemma s1_loop_files:
  "projected_files (s1_loop env items st)
   = projected_files st \<union> {fn \<in> snd ` set items. reproject_tiff env fn \<noteq> Failed_no_output}"
proof (induction items arbitrary: st)
  case Nil
  show ?case by simp
next
  case (Cons p items)
  obtain i fn where p: "p = (i, fn)" by (cases p)
  show ?case
    by (cases "reproject_tiff env fn") (auto simp: p Cons.IH Let_def)
qed

lemma s1_loop_saved:
  "\<exists>new. saved_checkpoints (s1_loop env items st) = saved_checkpoints st @ new \<and>
     (\<forall>c \<in> set new. \<exists>p \<in> set items.
        step1_progress c = Some (fst p) \<and> reproject_tiff env (snd p) = Reprojected \<and>
        snd p \<notin> projected_files st)"
proof (induction items arbitrary: st)
  case Nil
  show ?case by simp
next
  case (Cons p items)
  obtain i fn where p: "p = (i, fn)" by (cases p)
  show ?case
  proof (cases "fn \<in> projected_files st")
    case True
    then show ?thesis
      using Cons.IH [of "st\<lparr>skipped_count := skipped_count st + 1\<rparr>"] by (auto simp: p)
  next
    case False
    show ?thesis
    proof (cases "reproject_tiff env fn")
      case Failed_no_output
      then show ?thesis
        using False Cons.IH [of "st\<lparr>error_log := error_log st @ [fn]\<rparr>"] by (auto simp: p)
    next
      case Failed_partial_output
      then show ?thesis
        using False
          Cons.IH [of "st\<lparr>projected_files := insert fn (projected_files st),
                           error_log := error_log st @ [fn]\<rparr>"]
        by (simp add: p) blast
    next
      case Reprojected
      let ?st1 = "st\<lparr>projected_files := insert fn (projected_files st),
                       processed_count := processed_count st + 1\<rparr>"
      show ?thesis
      proof (cases "interval_elapsed (clock_at env i) (last_checkpoint_time st)")
        case True
        let ?c = "(checkpoint_data st)\<lparr>step1_progress := Some i, current_step := Some ''project''\<rparr>"
        let ?st2 = "?st1\<lparr>checkpoint_data := ?c,
                          saved_checkpoints := saved_checkpoints ?st1 @ [?c],
                          last_checkpoint_time := clock_at env i\<rparr>"
        obtain new where new: "saved_checkpoints (s1_loop env items ?st2)
              = saved_checkpoints ?st2 @ new"
          "\<forall>c \<in> set new. \<exists>p \<in> set items.
              step1_progress c = Some (fst p) \<and> reproject_tiff env (snd p) = Reprojected \<and>
              snd p \<notin> projected_files ?st2"
          using Cons.IH [of ?st2] by blast
        have run: "s1_loop env (p # items) st = s1_loop env items ?st2"
          using False Reprojected True by (simp add: p Let_def)
        have "saved_checkpoints (s1_loop env (p # items) st) = saved_checkpoints st @ (?c # new)"
          using new(1) run by simp
        moreover have "\<forall>c \<in> set (?c # new). \<exists>q \<in> set (p # items).
              step1_progress c = Some (fst q) \<and> reproject_tiff env (snd q) = Reprojected \<and>
              snd q \<notin> projected_files st"
          using new(2) False Reprojected by (auto simp: p)
        ultimately show ?thesis by blast
      next
        case no_save: False
        obtain new where new: "saved_checkpoints (s1_loop env items ?st1)
              = saved_checkpoints ?st1 @ new"
          "\<forall>c \<in> set new. \<exists>p \<in> set items.
              step1_progress c = Some (fst p) \<and> reproject_tiff env (snd p) = Reprojected \<and>
              snd p \<notin> projected_files ?st1"
          using Cons.IH [of ?st1] by blast
        have run: "s1_loop env (p # items) st = s1_loop env items ?st1"
          using False Reprojected no_save by (simp add: p Let_def)
        have "saved_checkpoints (s1_loop env (p # items) st) = saved_checkpoints st @ new"
          using new(1) run by simp
        moreover have "\<forall>c \<in> set new. \<exists>q \<in> set (p # items).
              step1_progress c = Some (fst q) \<and> reproject_tiff env (snd q) = Reprojected \<and>
              snd q \<notin> projected_files st"
          using new(2) by auto
        ultimately show ?thesis by blast
      qed
    qed
  qed
qed

lemma s1_loop_errors:
  "\<exists>new. error_log (s1_loop env items st) = error_log st @ new \<and>
     (\<forall>fn \<in> set new. fn \<in> snd ` set items \<and> reproject_tiff env fn \<noteq> Reprojected \<and>
        fn \<notin> projected_files st)"
proof (induction items arbitrary: st)
  case Nil
  show ?case by simp
next
  case (Cons p items)
  obtain i fn where p: "p = (i, fn)" by (cases p)
  show ?case
  proof (cases "fn \<in> projected_files st")
    case True
    then show ?thesis
      using Cons.IH [of "st\<lparr>skipped_count := skipped_count st + 1\<rparr>"] by (auto simp: p)
  next
    case False
    show ?thesis
    proof (cases "reproject_tiff env fn")
      case Failed_no_output
      let ?st1 = "st\<lparr>error_log := error_log st @ [fn]\<rparr>"
      obtain new where new: "error_log (s1_loop env items ?st1) = error_log ?st1 @ new"
        "\<forall>f \<in> set new. f \<in> snd ` set items \<and> reproject_tiff env f \<noteq> Reprojected \<and>
            f \<notin> projected_files ?st1"
        using Cons.IH [of ?st1] by blast
      have "error_log (s1_loop env (p # items) st) = error_log st @ (fn # new)"
        using new(1) False Failed_no_output by (simp add: p)
      moreover have "\<forall>f \<in> set (fn # new). f \<in> snd ` set (p # items) \<and>
            reproject_tiff env f \<noteq> Reprojected \<and> f \<notin> projected_files st"
        using new(2) False Failed_no_output by (auto simp: p)
      ultimately show ?thesis by blast
    next
      case Failed_partial_output
      let ?st1 = "st\<lparr>projected_files := insert fn (projected_files st),
                       error_log := error_log st @ [fn]\<rparr>"
      obtain new where new: "error_log (s1_loop env items ?st1) = error_log ?st1 @ new"
        "\<forall>f \<in> set new. f \<in> snd ` set items \<and> reproject_tiff env f \<noteq> Reprojected \<and>
            f \<notin> projected_files ?st1"
        using Cons.IH [of ?st1] by blast
      have "error_log (s1_loop env (p # items) st) = error_log st @ (fn # new)"
        using new(1) False Failed_partial_output by (simp add: p)
      moreover have "\<forall>f \<in> set (fn # new). f \<in> snd ` set (p # items) \<and>
            reproject_tiff env f \<noteq> Reprojected \<and> f \<notin> projected_files st"
        using new(2) False Failed_partial_output by (auto simp: p)
      ultimately show ?thesis by blast
    next
      case Reprojected
      let ?st1 = "st\<lparr>projected_files := insert fn (projected_files st),
                       processed_count := processed_count st + 1\<rparr>"
      let ?c = "(checkpoint_data st)\<lparr>step1_progress := Some i, current_step := Some ''project''\<rparr>"
      let ?st2 = "?st1\<lparr>checkpoint_data := ?c,
                        saved_checkpoints := saved_checkpoints ?st1 @ [?c],
                        last_checkpoint_time := clock_at env i\<rparr>"
      show ?thesis
      proof (cases "interval_elapsed (clock_at env i) (last_checkpoint_time st)")
        case True
        then show ?thesis
          using False Reprojected Cons.IH [of ?st2] by (simp add: p Let_def) blast
      next
        case no_save: False
        then show ?thesis
          using False Reprojected Cons.IH [of ?st1] by (simp add: p Let_def) blast
      qed
    qed
  qed
qed

lemma enumerate_from_set:
  "p \<in> set (enumerate_from k xs) \<longleftrightarrow> (\<exists>j < length xs. p = (k + int j, xs ! j))"
proof (induction xs arbitrary: k)
  case Nil
  show ?case by simp
next
  case (Cons x xs)
  show ?case
  proof
    assume "p \<in> set (enumerate_from k (x # xs))"
    then consider "p = (k, x)" | "p \<in> set (enumerate_from (k + 1) xs)" by auto
    then show "\<exists>j < length (x # xs). p = (k + int j, (x # xs) ! j)"
    proof cases
      case 1
      then show ?thesis by (intro exI [of _ 0]) simp
    next
      case 2
      then obtain j where "j < length xs" "p = (k + 1 + int j, xs ! j)"
        using Cons.IH [of "k + 1"] by blast
      then show ?thesis by (intro exI [of _ "Suc j"]) simp
    qed
  next
    assume "\<exists>j < length (x # xs). p = (k + int j, (x # xs) ! j)"
    then obtain j where j: "j < length (x # xs)" "p = (k + int j, (x # xs) ! j)" by blast
    show "p \<in> set (enumerate_from k (x # xs))"
    proof (cases j)
      case 0
      then show ?thesis using j by simp
    next
      case (Suc j')
      then have "j' < length xs" "p = (k + 1 + int j', xs ! j')" using j by simp_all
      then have "p \<in> set (enumerate_from (k + 1) xs)" using Cons.IH [of "k + 1"] by blast
      then show ?thesis by simp
    qed
  qed
qed

lemma length_enumerate_from: "length (enumerate_from k xs) = length xs"
  by (induction xs arbitrary: k) simp_all

lemma s1_items_positions:
  assumes "0 \<le> s1_start_idx ckpt" and "p \<in> set (s1_items tfs ckpt)"
  shows "s1_start_idx ckpt < fst p \<and> fst p \<le> int (length tfs) \<and> tfs ! nat (fst p - 1) = snd p"
proof -
  let ?n = "s1_start_idx ckpt"
  let ?lo = "min (nat ?n) (length tfs)"
  have sl: "py_slice_from tfs ?n = drop ?lo tfs"
    using assms(1) by (simp add: py_slice_from_def py_index_def)
  obtain j where j: "j < length (drop ?lo tfs)" "p = (?n + 1 + int j, drop ?lo tfs ! j)"
    using assms(2) unfolding s1_items_def sl enumerate_from_set by blast
  have lt: "nat ?n + j < length tfs" using j(1) by simp
  then have lo: "?lo = nat ?n" by simp
  have "drop ?lo tfs ! j = tfs ! (nat ?n + j)" using lt lo by simp
  moreover have "nat (?n + 1 + int j - 1) = nat ?n + j" using assms(1) by simp
  ultimately show ?thesis using j(2) lt assms(1) by simp
qed

lemma s1_loop_error_log_mono:
  "set (error_log st) \<subseteq> set (error_log (s1_loop env items st))"
  using s1_loop_errors [of env items st] by auto

lemma s1_loop_logs_failures:
  "p \<in> set items \<Longrightarrow> snd p \<notin> projected_files st \<Longrightarrow>
   reproject_tiff env (snd p) \<noteq> Reprojected \<Longrightarrow>
   snd p \<in> set (error_log (s1_loop env items st))"
proof (induction items arbitrary: st)
  case Nil
  then show ?case by simp
next
  case (Cons q items)
  obtain i fn where q: "q = (i, fn)" by (cases q)
  show ?case
  proof (cases "fn = snd p")
    case True
    let ?a = "st\<lparr>error_log := error_log st @ [fn]\<rparr>"
    let ?b = "st\<lparr>projected_files := insert fn (projected_files st),
                   error_log := error_log st @ [fn]\<rparr>"
    have "fn \<in> set (error_log (s1_loop env items ?a))"
      using s1_loop_error_log_mono [of ?a env items] by auto
    moreover have "fn \<in> set (error_log (s1_loop env items ?b))"
      using s1_loop_error_log_mono [of ?b env items] by auto
    ultimately show ?thesis
      using True Cons.prems(2,3) by (cases "reproject_tiff env fn") (simp_all add: q)
  next
    case False
    then have mem: "p \<in> set items" using Cons.prems(1) q by auto
    have step: "\<And>st'. projected_files st' \<subseteq> insert fn (projected_files st) \<Longrightarrow>
        snd p \<in> set (error_log (s1_loop env items st'))"
      using Cons.IH mem Cons.prems(2,3) False by blast
    show ?thesis
      by (cases "reproject_tiff env fn") (auto simp: q Let_def intro!: step)
  qed
qed

lemma s1_loop_exact:
  "distinct (map snd items) \<Longrightarrow>
   error_log (s1_loop env items st)
     = error_log st @ filter (\<lambda>fn. fn \<notin> projected_files st \<and> reproject_tiff env fn \<noteq> Reprojected)
         (map snd items) \<and>
   processed_count (s1_loop env items st)
     = processed_count st + length (filter
         (\<lambda>fn. fn \<notin> projected_files st \<and> reproject_tiff env fn = Reprojected) (map snd items)) \<and>
   skipped_count (s1_loop env items st)
     = skipped_count st + length (filter (\<lambda>fn. fn \<in> projected_files st) (map snd items))"
proof (induction items arbitrary: st)
  case Nil
  show ?case by simp
next
  case (Cons q items)
  obtain i fn where q: "q = (i, fn)" by (cases q)
  have d: "distinct (map snd items)" and nin: "fn \<notin> set (map snd items)"
    using Cons.prems by (simp_all add: q)
  have same: "\<And>P. filter (\<lambda>g. P (g \<in> insert fn (projected_files st)) g) (map snd items)
      = filter (\<lambda>g. P (g \<in> projected_files st) g) (map snd items)"
  proof -
    fix P
    have "g \<in> insert fn (projected_files st) \<longleftrightarrow> g \<in> projected_files st"
      if "g \<in> set (map snd items)" for g
      using that nin by auto
    then show "filter (\<lambda>g. P (g \<in> insert fn (projected_files st)) g) (map snd items)
      = filter (\<lambda>g. P (g \<in> projected_files st) g) (map snd items)"
      by (intro filter_cong refl) simp
  qed
  note ih = Cons.IH [OF d]
  note same_len = same [THEN arg_cong [of _ _ length]]
  show ?case
  proof (cases "fn \<in> projected_files st")
    case True
    then show ?thesis
      using ih [of "st\<lparr>skipped_count := skipped_count st + 1\<rparr>"] by (simp add: q)
  next
    case False
    show ?thesis
    proof (cases "reproject_tiff env fn")
      case Failed_no_output
      then show ?thesis
        using False ih [of "st\<lparr>error_log := error_log st @ [fn]\<rparr>"] by (simp add: q)
    next
      case Failed_partial_output
      then show ?thesis
        using False
          ih [of "st\<lparr>projected_files := insert fn (projected_files st),
                    error_log := error_log st @ [fn]\<rparr>"]
          same [of "\<lambda>b g. \<not> b \<and> reproject_tiff env g \<noteq> Reprojected"]
          same_len [of "\<lambda>b g. \<not> b \<and> reproject_tiff env g = Reprojected"]
          same_len [of "\<lambda>b g. b"]
        by (simp add: q)
    next
      case Reprojected
      let ?st1 = "st\<lparr>projected_files := insert fn (projected_files st),
                       processed_count := processed_count st + 1\<rparr>"
      let ?c = "(checkpoint_data st)\<lparr>step1_progress := Some i, current_step := Some ''project''\<rparr>"
      let ?st2 = "?st1\<lparr>checkpoint_data := ?c,
                        saved_checkpoints := saved_checkpoints ?st1 @ [?c],
                        last_checkpoint_time := clock_at env i\<rparr>"
      show ?thesis
        using False Reprojected ih [of ?st1] ih [of ?st2]
          same [of "\<lambda>b g. \<not> b \<and> reproject_tiff env g \<noteq> Reprojected"]
          same_len [of "\<lambda>b g. \<not> b \<and> reproject_tiff env g = Reprojected"]
          same_len [of "\<lambda>b g. b"]
        by (simp add: q Let_def)
    qed
  qed
qed

lemma s1_loop_saves_bound:
  "length (saved_checkpoints (s1_loop env items st)) + processed_count st
     \<le> length (saved_checkpoints st) + processed_count (s1_loop env items st)"
proof (induction items arbitrary: st)
  case Nil
  show ?case by simp
next
  case (Cons q items)
  obtain i fn where q: "q = (i, fn)" by (cases q)
  let ?st1 = "st\<lparr>projected_files := insert fn (projected_files st),
                   processed_count := processed_count st + 1\<rparr>"
  let ?c = "(checkpoint_data st)\<lparr>step1_progress := Some i, current_step := Some ''project''\<rparr>"
  let ?st2 = "?st1\<lparr>checkpoint_data := ?c,
                    saved_checkpoints := saved_checkpoints ?st1 @ [?c],
                    last_checkpoint_time := clock_at env i\<rparr>"
  show ?case
    using Cons.IH [of "st\<lparr>skipped_count := skipped_count st + 1\<rparr>"]
      Cons.IH [of "st\<lparr>error_log := error_log st @ [fn]\<rparr>"]
      Cons.IH [of "st\<lparr>projected_files := insert fn (projected_files st),
                    error_log := error_log st @ [fn]\<rparr>"]
      Cons.IH [of ?st1] Cons.IH [of ?st2]
    by (cases "reproject_tiff env fn") (auto simp: q Let_def)
qed

lemma map_snd_enumerate_from: "map snd (enumerate_from k xs) = xs"
  by (induction xs arbitrary: k) simp_all

lemma s1_items_names: "map snd (s1_items tfs ckpt) = py_slice_from tfs (s1_start_idx ckpt)"
  by (simp add: s1_items_def map_snd_enumerate_from)

lemma s1_items_distinct: "distinct tfs \<Longrightarrow> distinct (map snd (s1_items tfs ckpt))"
  by (simp add: s1_items_names py_slice_from_def)

text \<open>
  Claim C4, amended. For a non-empty input list the stage returns success and every item
  of the slice is handled once: it is processed, skipped or logged as failed. An item is
  logged exactly when its output was not there and its reprojection raised: every logged
  item is such an item, and every such item is logged. For a list without repetitions
  (a directory listing) the log is the list of those items in order, the processed count
  is the number of items reprojected and the skipped count the number of items whose
  output was there. An item that raised before creating its output has none afterwards.
  A checkpoint saved inside the loop records the number of an item that was reprojected
  in that iteration, never the number of a failing one, and there are no more such
  checkpoints than processed items; the final checkpoint records the length of the list.
  The numbers are positions in the list, so a saved cursor does pass earlier failed items.
\<close>

theorem s1_failure_is_local:
  assumes "tfs \<noteq> []"
  shows "let st = snd (s1 env tfs present target_crs ckpt); items = s1_items tfs ckpt in
     fst (s1 env tfs present target_crs ckpt) \<and>
     processed_count st + skipped_count st + length (error_log st) = length items \<and>
     (\<forall>fn \<in> set (error_log st).
        fn \<in> snd ` set items \<and> reproject_tiff env fn \<noteq> Reprojected \<and> fn \<notin> present) \<and>
     (\<forall>p \<in> set items.
        snd p \<notin> present \<and> reproject_tiff env (snd p) \<noteq> Reprojected \<longrightarrow>
        snd p \<in> set (error_log st)) \<and>
     (distinct tfs \<longrightarrow>
        error_log st
          = filter (\<lambda>fn. fn \<notin> present \<and> reproject_tiff env fn \<noteq> Reprojected) (map snd items) \<and>
        processed_count st
          = length (filter (\<lambda>fn. fn \<notin> present \<and> reproject_tiff env fn = Reprojected)
              (map snd items)) \<and>
        skipped_count st = length (filter (\<lambda>fn. fn \<in> present) (map snd items))) \<and>
     projected_files st
       = present \<union> {fn \<in> snd ` set items. reproject_tiff env fn \<noteq> Failed_no_output} \<and>
     length (butlast (saved_checkpoints st)) \<le> processed_count st \<and>
     (\<forall>c \<in> set (butlast (saved_checkpoints st)). \<exists>p \<in> set items.
        step1_progress c = Some (fst p) \<and> reproject_tiff env (snd p) = Reprojected \<and>
        snd p \<notin> present) \<and>
     step1_progress (last (saved_checkpoints st)) = Some (int (length tfs)) \<and>
     (0 \<le> s1_start_idx ckpt \<longrightarrow>
        (\<forall>p \<in> set items. s1_start_idx ckpt < fst p \<and> fst p \<le> int (length tfs) \<and>
           tfs ! nat (fst p - 1) = snd p))"
proof -
  let ?items = "s1_items tfs ckpt"
  let ?init = "s1_start env present ckpt"
  let ?l = "s1_loop env ?items ?init"
  let ?c = "(checkpoint_data ?l)
              \<lparr>step1_progress := Some (int (length tfs)), step1_complete := Some True\<rparr>"
  let ?fin = "?l\<lparr>checkpoint_data := ?c, saved_checkpoints := saved_checkpoints ?l @ [?c]\<rparr>"
  have run: "s1 env tfs present target_crs ckpt = (True, ?fin)"
    using assms by (simp add: s1_nonempty Let_def)
  have acc: "processed_count ?fin + skipped_count ?fin + length (error_log ?fin) = length ?items"
    using s1_loop_accounting [of env ?items ?init] by (simp add: s1_start_def)
  have err: "\<forall>fn \<in> set (error_log ?fin).
        fn \<in> snd ` set ?items \<and> reproject_tiff env fn \<noteq> Reprojected \<and> fn \<notin> present"
    using s1_loop_errors [of env ?items ?init] by (auto simp: s1_start_def)
  have logged: "\<forall>p \<in> set ?items.
        snd p \<notin> present \<and> reproject_tiff env (snd p) \<noteq> Reprojected \<longrightarrow>
        snd p \<in> set (error_log ?fin)"
    using s1_loop_logs_failures [of _ ?items ?init env] by (simp add: s1_start_def)
  have exact: "distinct tfs \<longrightarrow>
        error_log ?fin
          = filter (\<lambda>fn. fn \<notin> present \<and> reproject_tiff env fn \<noteq> Reprojected) (map snd ?items) \<and>
        processed_count ?fin
          = length (filter (\<lambda>fn. fn \<notin> present \<and> reproject_tiff env fn = Reprojected)
              (map snd ?items)) \<and>
        skipped_count ?fin = length (filter (\<lambda>fn. fn \<in> present) (map snd ?items))"
  proof
    assume "distinct tfs"
    then have "distinct (map snd ?items)" by (rule s1_items_distinct)
    from s1_loop_exact [OF this, of env ?init]
    show "error_log ?fin
          = filter (\<lambda>fn. fn \<notin> present \<and> reproject_tiff env fn \<noteq> Reprojected) (map snd ?items) \<and>
        processed_count ?fin
          = length (filter (\<lambda>fn. fn \<notin> present \<and> reproject_tiff env fn = Reprojected)
              (map snd ?items)) \<and>
        skipped_count ?fin = length (filter (\<lambda>fn. fn \<in> present) (map snd ?items))"
      by (simp add: s1_start_def)
  qed
  have files: "projected_files ?fin
       = present \<union> {fn \<in> snd ` set ?items. reproject_tiff env fn \<noteq> Failed_no_output}"
    using s1_loop_files [of env ?items ?init] by (simp add: s1_start_def)
  have bound: "length (butlast (saved_checkpoints ?fin)) \<le> processed_count ?fin"
    using s1_loop_saves_bound [of env ?items ?init] by (simp add: s1_start_def)
  have saved: "\<forall>c \<in> set (butlast (saved_checkpoints ?fin)). \<exists>p \<in> set ?items.
        step1_progress c = Some (fst p) \<and> reproject_tiff env (snd p) = Reprojected \<and>
        snd p \<notin> present"
    using s1_loop_saved [of env ?items ?init] by (auto simp: s1_start_def)
  have fin: "step1_progress (last (saved_checkpoints ?fin)) = Some (int (length tfs))"
    by simp
  have pos: "0 \<le> s1_start_idx ckpt \<longrightarrow>
        (\<forall>p \<in> set ?items. s1_start_idx ckpt < fst p \<and> fst p \<le> int (length tfs) \<and>
           tfs ! nat (fst p - 1) = snd p)"
    using s1_items_positions [of ckpt _ tfs] by blast
  show ?thesis
    unfolding run Let_def fst_conv snd_conv
    using acc err logged exact files bound saved fin pos by blast
qed

theorem s1_failure_is_local_witness:
  "[''a.tif'', ''b.tif'', ''c.tif''] \<noteq> [] \<and>
   distinct [''a.tif'', ''b.tif'', ''c.tif''] \<and>
   s1_items [''a.tif'', ''b.tif'', ''c.tif''] demo_config
     = [(1, ''a.tif''), (2, ''b.tif''), (3, ''c.tif'')] \<and>
   fst (s1 flaky_env [''a.tif'', ''b.tif'', ''c.tif''] {} ''EPSG:6677'' demo_config) \<and>
   error_log (snd (s1 flaky_env [''a.tif'', ''b.tif'', ''c.tif''] {} ''EPSG:6677'' demo_config))
     = [''a.tif'', ''c.tif''] \<and>
   processed_count
       (snd (s1 flaky_env [''a.tif'', ''b.tif'', ''c.tif''] {} ''EPSG:6677'' demo_config)) = 1 \<and>
   skipped_count
       (snd (s1 flaky_env [''a.tif'', ''b.tif'', ''c.tif''] {} ''EPSG:6677'' demo_config)) = 0 \<and>
   projected_files
       (snd (s1 flaky_env [''a.tif'', ''b.tif'', ''c.tif''] {} ''EPSG:6677'' demo_config))
     = {''b.tif''} \<and>
   length (butlast (saved_checkpoints
       (snd (s1 flaky_env [''a.tif'', ''b.tif'', ''c.tif''] {} ''EPSG:6677'' demo_config)))) \<le> 1 \<and>
   step1_progress (last (saved_checkpoints
       (snd (s1 flaky_env [''a.tif'', ''b.tif'', ''c.tif''] {} ''EPSG:6677'' demo_config))))
     = Some 3"
proof -
  let ?tfs = "[''a.tif'', ''b.tif'', ''c.tif'']"
  have ne: "?tfs \<noteq> []" by simp
  have d: "distinct ?tfs" by simp
  have items: "s1_items ?tfs demo_config = [(1, ''a.tif''), (2, ''b.tif''), (3, ''c.tif'')]"
    by (simp add: s1_items_def s1_start_idx_def py_slice_from_def py_index_def demo_config_def)
  have r: "reproject_tiff flaky_env ''a.tif'' = Failed_no_output"
    "reproject_tiff flaky_env ''b.tif'' = Reprojected"
    "reproject_tiff flaky_env ''c.tif'' = Failed_no_output"
    by (simp_all add: flaky_env_def)
  note t = s1_failure_is_local [OF ne, of flaky_env "{}" "''EPSG:6677''" demo_config,
      unfolded Let_def items]
  have pf: "{fn \<in> snd ` set [(1 :: int, ''a.tif''), (2, ''b.tif''), (3, ''c.tif'')].
              reproject_tiff flaky_env fn \<noteq> Failed_no_output} = {''b.tif''}"
    using r by auto
  show ?thesis
    using ne d items t unfolding pf by (simp add: r)
qed

subsection \<open>Stage 1 and the driver\<close>

lemma s1_loop_config:
  "\<exists>sp cs. checkpoint_data (s1_loop env items st)
      = (checkpoint_data st)\<lparr>step1_progress := sp, current_step := cs\<rparr>"
proof (induction items arbitrary: st)
  case Nil
  have "checkpoint_data st = (checkpoint_data st)
      \<lparr>step1_progress := step1_progress (checkpoint_data st),
       current_step := current_step (checkpoint_data st)\<rparr>" by simp
  then show ?case by (metis s1_loop.simps(1))
next
  case (Cons q items)
  obtain i fn where q: "q = (i, fn)" by (cases q)
  let ?st1 = "st\<lparr>projected_files := insert fn (projected_files st),
                   processed_count := processed_count st + 1\<rparr>"
  let ?c = "(checkpoint_data st)\<lparr>step1_progress := Some i, current_step := Some ''project''\<rparr>"
  let ?st2 = "?st1\<lparr>checkpoint_data := ?c,
                    saved_checkpoints := saved_checkpoints ?st1 @ [?c],
                    last_checkpoint_time := clock_at env i\<rparr>"
  have save: "\<exists>sp cs. checkpoint_data (s1_loop env items ?st2)
      = (checkpoint_data st)\<lparr>step1_progress := sp, current_step := cs\<rparr>"
    using Cons.IH [of ?st2] by auto
  show ?case
    using Cons.IH [of "st\<lparr>skipped_count := skipped_count st + 1\<rparr>"]
      Cons.IH [of "st\<lparr>error_log := error_log st @ [fn]\<rparr>"]
      Cons.IH [of "st\<lparr>projected_files := insert fn (projected_files st),
                    error_log := error_log st @ [fn]\<rparr>"]
      Cons.IH [of ?st1] save
    by (cases "reproject_tiff env fn") (simp_all add: q Let_def)
qed

lemma s1_config:
  "\<exists>sp cs sc. checkpoint_data (snd (s1 env tfs present target_crs ckpt))
      = ckpt\<lparr>step1_progress := sp, current_step := cs, step1_complete := sc\<rparr>"
proof (cases "tfs = []")
  case True
  have "ckpt = ckpt\<lparr>step1_progress := step1_progress ckpt, current_step := current_step ckpt,
      step1_complete := step1_complete ckpt\<rparr>" by simp
  then have "\<exists>sp cs sc. ckpt
      = ckpt\<lparr>step1_progress := sp, current_step := cs, step1_complete := sc\<rparr>"
    by blast
  then show ?thesis using True by (simp add: s1_def s1_start_def)
next
  case False
  obtain sp cs where l: "checkpoint_data (s1_loop env (s1_items tfs ckpt) (s1_start env present ckpt))
      = ckpt\<lparr>step1_progress := sp, current_step := cs\<rparr>"
    using s1_loop_config [of env "s1_items tfs ckpt" "s1_start env present ckpt"]
    by (auto simp: s1_start_def)
  have "checkpoint_data (snd (s1 env tfs present target_crs ckpt))
      = ckpt\<lparr>step1_progress := Some (int (length tfs)), current_step := cs,
             step1_complete := Some True\<rparr>"
    using False by (simp add: s1_nonempty Let_def l)
  then show ?thesis by blast
qed

lemma s2_returns:
  "(\<exists>st2. s2 env tfs on_disk bx by' bs c = Inr (True, st2)) \<longleftrightarrow> tfs \<noteq> [] \<and> bs \<noteq> 0"
  by (auto simp: s2_def s2_generate_def Let_def split: prod.splits)

lemma s2_no_input: "s2 env [] on_disk bx by' bs c = Inr (False, s2_start env on_disk c)"
  by (simp add: s2_def)

lemma glob_tif_sorted_none: "{f \<in> names. tif_name f} = {} \<Longrightarrow> glob_tif_sorted names = []"
proof -
  assume "{f \<in> names. tif_name f} = {}"
  then show ?thesis by (simp only: glob_tif_sorted_def) simp
qed


lemma s2_zero_batch: "tfs \<noteq> [] \<Longrightarrow> s2 env tfs on_disk bx by' 0 c = Inl ZeroDivisionError"
  by (simp add: s2_def)

lemma s1_items_subset: "snd ` set (s1_items tfs ckpt) \<subseteq> set tfs"
proof -
  have "set (map snd (s1_items tfs ckpt)) \<subseteq> set tfs"
    unfolding s1_items_names py_slice_from_def by (rule set_drop_subset)
  then show ?thesis by simp
qed

text \<open>Stage 1 followed by stage 2, as lines 701-703 and 721-722 run them.\<close>

lemma after_stage1:
  assumes "c = checkpoint_data (snd (s1 env tfs present target_crs ckpt))"
    and "res =
     (case s2 env2 globbed on_disk (cfg_bx c) (cfg_by c) (cfg_bs c) c of
        Inl e \<Rightarrow> (Raised e, Document c)
      | Inr (ok, st2) \<Rightarrow>
          (Finished ok, checkpoint_after ok (checkpoint_on_disk (Document c) (s2_saved st2))))"
  shows "(snd res = Missing \<longleftrightarrow> globbed \<noteq> [] \<and> cfg_bs ckpt \<noteq> 0) \<and>
         (globbed = [] \<longrightarrow> res = (Finished False, Document c))"
proof -
  obtain sp cs sc where "c = ckpt\<lparr>step1_progress := sp, current_step := cs, step1_complete := sc\<rparr>"
    using s1_config [of env tfs present target_crs ckpt] unfolding assms(1) by blast
  then have bs: "cfg_bs c = cfg_bs ckpt" by simp
  consider (none) "globbed = []" | (zero) "globbed \<noteq> []" "cfg_bs ckpt = 0"
    | (run) "globbed \<noteq> []" "cfg_bs ckpt \<noteq> 0" by blast
  then show ?thesis
  proof cases
    case none
    then show ?thesis
      by (simp add: assms(2) s2_no_input s2_start_def checkpoint_after_def checkpoint_on_disk_def)
  next
    case zero
    then show ?thesis by (simp add: assms(2) bs s2_zero_batch)
  next
    case run
    then obtain st2 where "s2 env2 globbed on_disk (cfg_bx c) (cfg_by c) (cfg_bs c) c = Inr (True, st2)"
      using s2_returns [of env2 globbed on_disk "cfg_bx c" "cfg_by c" "cfg_bs c" c] bs by auto
    then show ?thesis using run by (simp add: assms(2) checkpoint_after_def)
  qed
qed


lemma s1_crs_unused: "s1 env tfs present a ckpt = s1 env tfs present b ckpt"
  by (simp add: s1_def)

lemma s1_result:
  assumes "tfs \<noteq> []"
  obtains st where "s1 env tfs present target_crs ckpt = (True, st)"
    and "checkpoint_on_disk (Document ckpt) (saved_checkpoints st) = Document (checkpoint_data st)"
    and "mode (checkpoint_data st) = mode ckpt"
proof -
  obtain ok st where e: "s1 env tfs present target_crs ckpt = (ok, st)" by (cases "s1 env tfs present target_crs ckpt")
  have ok: "ok" using assms e by (simp add: s1_def Let_def split: if_splits) 
  have sv: "saved_checkpoints st \<noteq> [] \<and> last (saved_checkpoints st) = checkpoint_data st"
    using assms e by (auto simp: s1_def Let_def)
  obtain sp cs sc where "checkpoint_data st
      = ckpt\<lparr>step1_progress := sp, current_step := cs, step1_complete := sc\<rparr>"
    using s1_config [of env tfs present target_crs ckpt] e by auto
  then have m: "mode (checkpoint_data st) = mode ckpt" by simp
  show thesis
    using that [of st] e ok sv m by (simp add: checkpoint_on_disk_def)
qed

lemma main_new_all:
  assumes "tfs \<noteq> []" and "mode ckpt = ''all''"
    and "c = checkpoint_data (snd (s1 env tfs present target_crs ckpt))"
  shows "main_new env env2 tfs present on_disk ckpt =
     (case s2 env2 (glob_tif_sorted (projected_files (snd (s1 env tfs present target_crs ckpt))))
             on_disk (cfg_bx c) (cfg_by c) (cfg_bs c) c of
        Inl e \<Rightarrow> (Raised e, Document c)
      | Inr (ok, st2) \<Rightarrow>
          (Finished ok, checkpoint_after ok (checkpoint_on_disk (Document c) (s2_saved st2))))"
proof -
  obtain st where st: "s1 env tfs present target_crs ckpt = (True, st)"
    and sv: "checkpoint_on_disk (Document ckpt) (saved_checkpoints st) = Document (checkpoint_data st)"
    using s1_result [OF assms(1)] by metis
  have r: "s1 env tfs present (crs ckpt) ckpt = (True, st)"
    using st s1_crs_unused by metis
  show ?thesis
    using assms(2)
    by (simp add: main_new_def r st assms(3) sv Let_def split: sum.splits prod.splits)
qed

lemma main_resume_all:
  assumes "tfs \<noteq> []" and "current_step ckpt = Some ''project''"
    and "mode ckpt = ''all'' \<or> mode ckpt = ''All''"
    and "c = checkpoint_data (snd (s1 env tfs present target_crs ckpt))"
  shows "main_resume env env2 tfs present on_disk ckpt =
     (case s2 env2 (glob_tif_sorted (projected_files (snd (s1 env tfs present target_crs ckpt))))
             on_disk (cfg_bx c) (cfg_by c) (cfg_bs c) c of
        Inl e \<Rightarrow> (Raised e, Document c)
      | Inr (ok, st2) \<Rightarrow>
          (Finished ok, checkpoint_after ok (checkpoint_on_disk (Document c) (s2_saved st2))))"
proof -
  obtain st where st: "s1 env tfs present target_crs ckpt = (True, st)"
    and sv: "checkpoint_on_disk (Document ckpt) (saved_checkpoints st) = Document (checkpoint_data st)"
    and m: "mode (checkpoint_data st) = mode ckpt"
    using s1_result [OF assms(1)] by metis
  have r: "s1 env tfs present (crs ckpt) ckpt = (True, st)"
    using st s1_crs_unused by metis
  show ?thesis
    using assms(2,3)
    by (auto simp: main_resume_def r st assms(4) sv m Let_def split: sum.splits prod.splits)
qed

lemma main_stage1_only:
  assumes "tfs \<noteq> []"
  shows "(mode ckpt = ''project'' \<longrightarrow>
            main_new env env2 tfs present on_disk ckpt = (Finished True, Missing)) \<and>
         (current_step ckpt = Some ''project'' \<and> mode ckpt \<noteq> ''all'' \<and> mode ckpt \<noteq> ''All'' \<longrightarrow>
            main_resume env env2 tfs present on_disk ckpt = (Finished True, Missing))"
proof -
  obtain st where st: "s1 env tfs present (crs ckpt) ckpt = (True, st)"
    and m: "mode (checkpoint_data st) = mode ckpt"
    using s1_result [OF assms] by metis
  show ?thesis
    by (simp add: main_new_def main_resume_def st m Let_def checkpoint_after_def)
qed


lemma all_failed_leaves_no_tif:
  assumes "\<forall>fn \<in> set tfs. reproject_tiff env fn = Failed_no_output"
    and "{f \<in> present. tif_name f} = {}"
  shows "glob_tif_sorted (projected_files (snd (s1 env tfs present target_crs ckpt))) = []"
proof -
  have "projected_files (snd (s1 env tfs present target_crs ckpt)) = present"
  proof (cases "tfs = []")
    case True
    then show ?thesis by (simp add: s1_def s1_start_def)
  next
    case False
    have "{fn \<in> snd ` set (s1_items tfs ckpt). reproject_tiff env fn \<noteq> Failed_no_output} = {}"
      using assms(1) s1_items_subset [of tfs ckpt] by auto
    then have "projected_files (s1_loop env (s1_items tfs ckpt) (s1_start env present ckpt))
        = present"
      unfolding s1_loop_files by (auto simp: s1_start_def)
    then show ?thesis
      using False by (simp add: s1_nonempty Let_def)
  qed
  then show ?thesis using assms(2) by (simp add: glob_tif_sorted_none)
qed

text \<open>
  Claim C10 as stated fails in its last part. A new project in mode \<open>all\<close> with two
  tiles that both fail and an empty projected directory: stage 1 returns success with
  both tiles logged, stage 2 finds no input and returns failure, and the checkpoint is
  kept, holding the cursor 2 and the complete flag of stage 1.
\<close>

theorem kept_checkpoint_after_failed_tiles:
  "fst (s1 failing_env [''a.tif'', ''b.tif''] {} ''EPSG:6677'' (demo_config\<lparr>mode := ''all''\<rparr>)) \<and>
   error_log (snd (s1 failing_env [''a.tif'', ''b.tif''] {} ''EPSG:6677''
       (demo_config\<lparr>mode := ''all''\<rparr>))) = [''a.tif'', ''b.tif''] \<and>
   main_new failing_env demo_s2_env [''a.tif'', ''b.tif''] {} [] (demo_config\<lparr>mode := ''all''\<rparr>)
     = (Finished False,
        Document (demo_config\<lparr>mode := ''all'', step1_progress := Some 2,
                               step1_complete := Some True\<rparr>))"
  by (simp add: main_new_def s1_def failing_env_def s1_start_def py_slice_from_def py_index_def
      demo_config_def Let_def glob_tif_sorted_def s2_def s2_start_def checkpoint_on_disk_def
      checkpoint_after_def)

text \<open>
  Claim C10, amended. Stage 1 reports success exactly when the input list is not empty.
  For a non-empty list, whatever the reprojections did, the dictionary and the last
  document saved hold the cursor \<open>len(tfs)\<close> and the complete flag. When stage 1 is the
  only stage of the run (a new project in mode \<open>project\<close>, or a resumed one whose mode
  is not \<open>all\<close>), \<open>main\<close> then deletes the checkpoint. When stage 2 follows (mode \<open>all\<close>),
  the checkpoint is deleted exactly when the projected directory, as stage 1 left it,
  holds a tile and the batch size is not zero; with no tile there the run ends in
  failure with the checkpoint of stage 1 kept, and that is the case when every
  reprojection failed without output and no tile was there before.
\<close>

theorem s1_fails_only_without_input:
  "fst (s1 env tfs present target_crs ckpt) = (tfs \<noteq> []) \<and>
   (tfs \<noteq> [] \<longrightarrow>
     (let st = snd (s1 env tfs present target_crs ckpt);
          globbed = glob_tif_sorted (projected_files st) in
      step1_progress (checkpoint_data st) = Some (int (length tfs)) \<and>
      step1_complete (checkpoint_data st) = Some True \<and>
      saved_checkpoints st \<noteq> [] \<and>
      last (saved_checkpoints st) = checkpoint_data st \<and>
      (mode ckpt = ''project'' \<longrightarrow>
         main_new env env2 tfs present on_disk ckpt = (Finished True, Missing)) \<and>
      (current_step ckpt = Some ''project'' \<and> mode ckpt \<noteq> ''all'' \<and> mode ckpt \<noteq> ''All'' \<longrightarrow>
         main_resume env env2 tfs present on_disk ckpt = (Finished True, Missing)) \<and>
      (mode ckpt = ''all'' \<longrightarrow>
         (snd (main_new env env2 tfs present on_disk ckpt) = Missing \<longleftrightarrow>
            globbed \<noteq> [] \<and> cfg_bs ckpt \<noteq> 0) \<and>
         (globbed = [] \<longrightarrow>
            main_new env env2 tfs present on_disk ckpt
              = (Finished False, Document (checkpoint_data st)))) \<and>
      (current_step ckpt = Some ''project'' \<and> (mode ckpt = ''all'' \<or> mode ckpt = ''All'') \<longrightarrow>
         (snd (main_resume env env2 tfs present on_disk ckpt) = Missing \<longleftrightarrow>
            globbed \<noteq> [] \<and> cfg_bs ckpt \<noteq> 0) \<and>
         (globbed = [] \<longrightarrow>
            main_resume env env2 tfs present on_disk ckpt
              = (Finished False, Document (checkpoint_data st)))) \<and>
      ((\<forall>fn \<in> set tfs. reproject_tiff env fn = Failed_no_output) \<and>
         {f \<in> present. tif_name f} = {} \<longrightarrow> globbed = [])))"
proof (intro conjI impI)
  show "fst (s1 env tfs present target_crs ckpt) = (tfs \<noteq> [])"
    by (simp add: s1_def Let_def)
next
  assume ne: "tfs \<noteq> []"
  let ?st = "snd (s1 env tfs present target_crs ckpt)"
  let ?g = "glob_tif_sorted (projected_files ?st)"
  let ?c = "checkpoint_data ?st"
  have a: "step1_progress ?c = Some (int (length tfs)) \<and> step1_complete ?c = Some True \<and>
      saved_checkpoints ?st \<noteq> [] \<and> last (saved_checkpoints ?st) = ?c"
    using ne by (simp add: s1_def Let_def)
  note b = main_stage1_only [OF ne, of ckpt env env2 present on_disk]
  have c: "mode ckpt = ''all'' \<longrightarrow>
         (snd (main_new env env2 tfs present on_disk ckpt) = Missing \<longleftrightarrow>
            ?g \<noteq> [] \<and> cfg_bs ckpt \<noteq> 0) \<and>
         (?g = [] \<longrightarrow>
            main_new env env2 tfs present on_disk ckpt = (Finished False, Document ?c))"
  proof
    assume m: "mode ckpt = ''all''"
    show "(snd (main_new env env2 tfs present on_disk ckpt) = Missing \<longleftrightarrow>
            ?g \<noteq> [] \<and> cfg_bs ckpt \<noteq> 0) \<and>
         (?g = [] \<longrightarrow>
            main_new env env2 tfs present on_disk ckpt = (Finished False, Document ?c))"
      by (rule after_stage1 [OF refl main_new_all [OF ne m refl]])
  qed
  have d: "current_step ckpt = Some ''project'' \<and> (mode ckpt = ''all'' \<or> mode ckpt = ''All'') \<longrightarrow>
         (snd (main_resume env env2 tfs present on_disk ckpt) = Missing \<longleftrightarrow>
            ?g \<noteq> [] \<and> cfg_bs ckpt \<noteq> 0) \<and>
         (?g = [] \<longrightarrow>
            main_resume env env2 tfs present on_disk ckpt = (Finished False, Document ?c))"
  proof
    assume m: "current_step ckpt = Some ''project'' \<and> (mode ckpt = ''all'' \<or> mode ckpt = ''All'')"
    show "(snd (main_resume env env2 tfs present on_disk ckpt) = Missing \<longleftrightarrow>
            ?g \<noteq> [] \<and> cfg_bs ckpt \<noteq> 0) \<and>
         (?g = [] \<longrightarrow>
            main_resume env env2 tfs present on_disk ckpt = (Finished False, Document ?c))"
      by (rule after_stage1 [OF refl main_resume_all [OF ne conjunct1 [OF m] conjunct2 [OF m] refl]])
  qed
  have e: "(\<forall>fn \<in> set tfs. reproject_tiff env fn = Failed_no_output) \<and>
         {f \<in> present. tif_name f} = {} \<longrightarrow> ?g = []"
    using all_failed_leaves_no_tif [of tfs env present target_crs ckpt] by blast
  show "let st = snd (s1 env tfs present target_crs ckpt);
          globbed = glob_tif_sorted (projected_files st) in
      step1_progress (checkpoint_data st) = Some (int (length tfs)) \<and>
      step1_complete (checkpoint_data st) = Some True \<and>
      saved_checkpoints st \<noteq> [] \<and>
      last (saved_checkpoints st) = checkpoint_data st \<and>
      (mode ckpt = ''project'' \<longrightarrow>
         main_new env env2 tfs present on_disk ckpt = (Finished True, Missing)) \<and>
      (current_step ckpt = Some ''project'' \<and> mode ckpt \<noteq> ''all'' \<and> mode ckpt \<noteq> ''All'' \<longrightarrow>
         main_resume env env2 tfs present on_disk ckpt = (Finished True, Missing)) \<and>
      (mode ckpt = ''all'' \<longrightarrow>
         (snd (main_new env env2 tfs present on_disk ckpt) = Missing \<longleftrightarrow>
            globbed \<noteq> [] \<and> cfg_bs ckpt \<noteq> 0) \<and>
         (globbed = [] \<longrightarrow>
            main_new env env2 tfs present on_disk ckpt
              = (Finished False, Document (checkpoint_data st)))) \<and>
      (current_step ckpt = Some ''project'' \<and> (mode ckpt = ''all'' \<or> mode ckpt = ''All'') \<longrightarrow>
         (snd (main_resume env env2 tfs present on_disk ckpt) = Missing \<longleftrightarrow>
            globbed \<noteq> [] \<and> cfg_bs ckpt \<noteq> 0) \<and>
         (globbed = [] \<longrightarrow>
            main_resume env env2 tfs present on_disk ckpt
              = (Finished False, Document (checkpoint_data st)))) \<and>
      ((\<forall>fn \<in> set tfs. reproject_tiff env fn = Failed_no_output) \<and>
         {f \<in> present. tif_name f} = {} \<longrightarrow> globbed = [])"
    unfolding Let_def using a b c d e by blast
qed


theorem s1_fails_only_without_input_witness:
  "[''a.tif'', ''b.tif''] \<noteq> [] \<and>
   fst (s1 failing_env [''a.tif'', ''b.tif''] {} ''EPSG:6677'' demo_config) \<and>
   \<not> fst (s1 failing_env [] {} ''EPSG:6677'' demo_config) \<and>
   step1_progress (checkpoint_data
       (snd (s1 failing_env [''a.tif'', ''b.tif''] {} ''EPSG:6677'' demo_config))) = Some 2 \<and>
   step1_complete (checkpoint_data
       (snd (s1 failing_env [''a.tif'', ''b.tif''] {} ''EPSG:6677'' demo_config))) = Some True \<and>
   mode demo_config = ''project'' \<and>
   main_new failing_env demo_s2_env [''a.tif'', ''b.tif''] {} [] demo_config
     = (Finished True, Missing) \<and>
   current_step (demo_config\<lparr>current_step := Some ''project''\<rparr>) = Some ''project'' \<and>
   main_resume failing_env demo_s2_env [''a.tif'', ''b.tif''] {} []
       (demo_config\<lparr>current_step := Some ''project''\<rparr>)
     = (Finished True, Missing) \<and>
   mode (demo_config\<lparr>mode := ''all''\<rparr>) = ''all'' \<and>
   reproject_tiff failing_env ''a.tif'' = Failed_no_output \<and>
   reproject_tiff failing_env ''b.tif'' = Failed_no_output \<and>
   {f \<in> {}. tif_name f} = {} \<and>
   glob_tif_sorted (projected_files
       (snd (s1 failing_env [''a.tif'', ''b.tif''] {} ''EPSG:6677''
          (demo_config\<lparr>mode := ''all''\<rparr>)))) = [] \<and>
   main_new failing_env demo_s2_env [''a.tif'', ''b.tif''] {} [] (demo_config\<lparr>mode := ''all''\<rparr>)
     = (Finished False,
        Document (checkpoint_data (snd (s1 failing_env [''a.tif'', ''b.tif''] {} ''EPSG:6677''
          (demo_config\<lparr>mode := ''all''\<rparr>))))) \<and>
   snd (main_new failing_env demo_s2_env [''a.tif'', ''b.tif''] {} []
          (demo_config\<lparr>mode := ''all''\<rparr>)) \<noteq> Missing"
proof -
  let ?tfs = "[''a.tif'', ''b.tif'']"
  have ne: "?tfs \<noteq> []" by simp
  have mp: "mode demo_config = ''project''" by (simp add: demo_config_def)
  have ma: "mode (demo_config\<lparr>mode := ''all''\<rparr>) = ''all''" by simp
  have cs: "current_step (demo_config\<lparr>current_step := Some ''project''\<rparr>) = Some ''project''"
    by simp
  have mr: "mode (demo_config\<lparr>current_step := Some ''project''\<rparr>) = ''project''"
    by (simp add: demo_config_def)
  have r: "reproject_tiff failing_env ''a.tif'' = Failed_no_output"
    "reproject_tiff failing_env ''b.tif'' = Failed_no_output"
    by (simp_all add: failing_env_def)
  have all: "\<forall>fn \<in> set ?tfs. reproject_tiff failing_env fn = Failed_no_output"
    using r by simp
  have no: "{f \<in> {}. tif_name f} = {}" by simp
  note t0 = s1_fails_only_without_input [of failing_env "[]" "{}" "''EPSG:6677''" demo_config]
  note t1 = s1_fails_only_without_input [of failing_env ?tfs "{}" "''EPSG:6677''" demo_config
      demo_s2_env "[]", unfolded Let_def]
  note t2 = s1_fails_only_without_input [of failing_env ?tfs "{}" "''EPSG:6677''"
      "demo_config\<lparr>mode := ''all''\<rparr>" demo_s2_env "[]", unfolded Let_def]
  note t3 = s1_fails_only_without_input [of failing_env ?tfs "{}" "''EPSG:6677''"
      "demo_config\<lparr>current_step := Some ''project''\<rparr>" demo_s2_env "[]", unfolded Let_def]
  have g: "glob_tif_sorted (projected_files
       (snd (s1 failing_env ?tfs {} ''EPSG:6677'' (demo_config\<lparr>mode := ''all''\<rparr>)))) = []"
    using t2 ne all no by blast
  have kept: "main_new failing_env demo_s2_env ?tfs {} [] (demo_config\<lparr>mode := ''all''\<rparr>)
     = (Finished False,
        Document (checkpoint_data (snd (s1 failing_env ?tfs {} ''EPSG:6677''
          (demo_config\<lparr>mode := ''all''\<rparr>)))))"
    using t2 ne ma g by blast
  have del: "main_new failing_env demo_s2_env ?tfs {} [] demo_config = (Finished True, Missing)"
    using t1 ne mp by blast
  have res: "main_resume failing_env demo_s2_env ?tfs {} []
       (demo_config\<lparr>current_step := Some ''project''\<rparr>) = (Finished True, Missing)"
    using t3 ne cs mr by auto
  have st: "fst (s1 failing_env ?tfs {} ''EPSG:6677'' demo_config) \<and>
    step1_progress (checkpoint_data (snd (s1 failing_env ?tfs {} ''EPSG:6677'' demo_config)))
      = Some 2 \<and>
    step1_complete (checkpoint_data (snd (s1 failing_env ?tfs {} ''EPSG:6677'' demo_config)))
      = Some True"
    using t1 ne by simp
  have emp: "\<not> fst (s1 failing_env [] {} ''EPSG:6677'' demo_config)"
    using t0 by simp
  show ?thesis
    using ne st emp mp del cs res ma r no g kept by simp
qed

subsection \<open>The projects that can be resumed\<close>

lemma get_existing_projects_append:
  "get_existing_projects (l1 @ l2) = get_existing_projects l1 @ get_existing_projects l2"
proof (induction l1)
  case Nil
  show ?case by simp
next
  case (Cons e l1)
  obtain n d cf where e: "e = (n, d, cf)" by (cases e)
  show ?case by (cases cf) (simp_all add: e Cons.IH)
qed

lemma get_existing_projects_names:
  "(n, data) \<in> set (get_existing_projects listing) \<longleftrightarrow> (n, True, Document data) \<in> set listing"
proof (induction listing)
  case Nil
  show ?case by simp
next
  case (Cons e l)
  obtain m d cf where e: "e = (m, d, cf)" by (cases e)
  show ?case by (cases cf) (auto simp: e Cons.IH)
qed

text \<open>
  Claim C6 as stated fails. With a project directory whose checkpoint file exists and is
  not JSON, a resume prints that no project is available and returns nothing, exactly
  as it does when the file is missing; with a second, loadable project the first line of
  the list is that other project.
\<close>

theorem unparsable_checkpoint_not_reported:
  "resume_project [(''demo'', True, Unparsable)] (Some 0) = (None, [No_projects_available]) \<and>
   resume_project [(''demo'', True, Unparsable)] (Some 0)
     = resume_project [(''demo'', True, Missing)] (Some 0) \<and>
   resume_project [(''demo'', True, Unparsable), (''other'', True, Document demo_config)] (Some 0)
     = (Some (''other'', demo_config), [Resuming_project ''other'' None])"
  by (simp add: resume_project_def demo_config_def)

text \<open>
  Claim C6, amended. \<open>load_checkpoint\<close> raises on a checkpoint file that is there and does
  not load, but the resume path does not call it: an entry with such a file contributes
  nothing to the list of resumable projects, \<open>resume_project\<close> behaves exactly as if the
  file were missing, and when it is the only entry the operator is told that no project
  is available.
\<close>

theorem unloadable_checkpoint_is_dropped:
  "fails_to_load cf \<Longrightarrow>
   (\<exists>e. load_checkpoint cf = Inl e) \<and>
   get_existing_projects (l1 @ (proj_name, isdir, cf) # l2)
     = get_existing_projects (l1 @ (proj_name, isdir, Missing) # l2) \<and>
   (\<forall>data. (proj_name, data) \<in> set (get_existing_projects (l1 @ (proj_name, isdir, cf) # l2))
        \<longrightarrow> (proj_name, data) \<in> set (get_existing_projects (l1 @ l2))) \<and>
   resume_project (l1 @ (proj_name, isdir, cf) # l2) answer
     = resume_project (l1 @ (proj_name, isdir, Missing) # l2) answer \<and>
   resume_project [(proj_name, isdir, cf)] answer = (None, [No_projects_available])"
  by (auto simp: fails_to_load_def load_checkpoint_def get_existing_projects_append
      resume_project_def)

theorem unloadable_checkpoint_is_dropped_witness:
  "fails_to_load Unparsable \<and>
   load_checkpoint Unparsable = Inl JSONDecodeError \<and>
   get_existing_projects
       [(''old'', True, Document demo_config), (''demo'', True, Unparsable), (''notes.txt'', False, Missing)]
     = [(''old'', demo_config)] \<and>
   resume_project
       [(''old'', True, Document demo_config), (''demo'', True, Unparsable), (''notes.txt'', False, Missing)]
       (Some 0)
     = resume_project
       [(''old'', True, Document demo_config), (''demo'', True, Missing), (''notes.txt'', False, Missing)]
       (Some 0) \<and>
   resume_project [(''demo'', True, Unparsable)] (Some 0) = (None, [No_projects_available])"
proof -
  have h: "fails_to_load Unparsable" by (simp add: fails_to_load_def)
  show ?thesis
    using h
      unloadable_checkpoint_is_dropped [OF h, of "[(''old'', True, Document demo_config)]" "''demo''"
        True "[(''notes.txt'', False, Missing)]" "Some 0"]
    by (simp add: load_checkpoint_def)
qed

subsection \<open>What a built region holds\<close>

lemma place_blocks_set:
  "(bx, lvl, bz) \<in> set (place_blocks cd me bc) \<longleftrightarrow>
     ((bx, bz), lvl) \<in> set bc \<and> me \<le> lvl \<and> lvl \<le> 319 \<and> set_block_ok cd bx lvl bz"
proof (induction bc)
  case Nil
  show ?case by simp
next
  case (Cons e bc)
  obtain x z y where e: "e = ((x, z), y)" by (cases e) auto
  show ?case by (auto simp: e Cons.IH)
qed

lemma place_blocks_column:
  assumes "distinct (map fst bc)" and "map_of bc (bx, bz) = Some y"
  shows "(bx, lvl, bz) \<in> set (place_blocks cd me bc) \<longleftrightarrow>
           lvl = y \<and> me \<le> y \<and> y \<le> 319 \<and> set_block_ok cd bx y bz"
proof -
  have "((bx, bz), lvl) \<in> set bc \<longleftrightarrow> lvl = y"
    using assms by (metis map_of_eq_Some_iff option.inject)
  then show ?thesis by (auto simp: place_blocks_set)
qed

lemma build_chunks_Some:
  "build_chunks cd rk me chunks acc = Some res \<Longrightarrow> res = acc @ map (chunk_doc_of cd me) chunks"
proof (induction chunks arbitrary: acc)
  case Nil
  then show ?case by simp
next
  case (Cons e chunks)
  obtain cx cz bc where e: "e = ((cx, cz), bc)" by (cases e) auto
  show ?case
    using Cons.prems Cons.IH [of "acc @ [chunk_doc_of cd me e]"]
    by (simp add: e chunk_doc_of_def Let_def split: if_splits)
qed

lemma generate_mca_file_Some:
  "generate_mca_file cd rx rz chunks me dsm = Some reg \<Longrightarrow>
   reg = \<lparr>reg_x = rx, reg_z = rz, reg_chunks = map (chunk_doc_of cd me) chunks\<rparr>"
  by (auto simp: generate_mca_file_def dest: build_chunks_Some)

lemma emit_regions_written:
  "(f, reg) \<in> set (written (emit_regions cd me dsm rd st)) \<Longrightarrow>
   (f, reg) \<in> set (written st) \<or>
   (\<exists>e \<in> set rd. f = mca_filename (fst (fst e)) (snd (fst e)) \<and>
      generate_mca_file cd (fst (fst e)) (snd (fst e)) (snd e) me dsm = Some reg)"
proof (induction rd arbitrary: st)
  case Nil
  then show ?case by simp
next
  case (Cons e rd)
  obtain rx rz chunks where e: "e = ((rx, rz), chunks)" by (cases e) auto
  let ?f = "mca_filename rx rz"
  let ?st1 = "st\<lparr>attempted := attempted st @ [?f]\<rparr>"
  show ?case
  proof (cases "?f \<in> existing_mcas_set st")
    case True
    then show ?thesis using Cons.prems Cons.IH [of st] by (auto simp: e)
  next
    case False
    show ?thesis
    proof (cases "generate_mca_file cd rx rz chunks me dsm")
      case None
      then show ?thesis using False Cons.prems Cons.IH [of ?st1] by (auto simp: e Let_def)
    next
      case (Some r)
      show ?thesis
      proof (cases "save_ok cd ?f")
        case True
        let ?st2 = "?st1\<lparr>existing_mcas_set := insert ?f (existing_mcas_set ?st1),
                       written := written ?st1 @ [(?f, r)],
                       mca_count := mca_count ?st1 + 1\<rparr>"
        have "(f, reg) \<in> set (written (emit_regions cd me dsm rd ?st2))"
          using Cons.prems False Some True by (simp add: e Let_def)
        then show ?thesis using Cons.IH [of ?st2] Some by (auto simp: e)
      next
        case no: False
        then show ?thesis using False Some Cons.prems Cons.IH [of ?st1] by (auto simp: e Let_def)
      qed
    qed
  qed
qed

lemma set_update_subset: "set (AList.update k v al) \<subseteq> insert (k, v) (set al)"
  by (induction al) auto

lemma dd_get_distinct:
  "(\<forall>e \<in> set d. distinct (map fst (snd e))) \<Longrightarrow> distinct (map fst (dd_get d k))"
  by (fastforce simp: dd_get_def split: option.splits dest: map_of_SomeD)

lemma dd_get_member:
  "(\<forall>e \<in> set d. P (snd e)) \<Longrightarrow> P [] \<Longrightarrow> P (dd_get d k)"
  by (fastforce simp: dd_get_def split: option.splits dest: map_of_SomeD)

lemma wf_regions_insert:
  assumes "wf_regions rd"
  shows "wf_regions (region_insert rd rk ck bk y)"
proof -
  let ?chunks = "dd_get rd rk"
  let ?blocks = "dd_get ?chunks ck"
  let ?chunks' = "AList.update ck (AList.update bk y ?blocks) ?chunks"
  have d1: "distinct (map fst ?chunks)"
    using assms by (intro dd_get_distinct) (simp add: wf_regions_def)
  have inner: "\<forall>c \<in> set ?chunks. distinct (map fst (snd c))"
    using assms
    by (intro dd_get_member [where P = "\<lambda>ch. \<forall>c \<in> set ch. distinct (map fst (snd c))"])
       (simp_all add: wf_regions_def)
  have d2: "distinct (map fst ?blocks)"
    using inner by (intro dd_get_distinct) simp
  have c1: "distinct (map fst ?chunks')" using d1 by (rule distinct_update)
  have c2: "\<forall>c \<in> set ?chunks'. distinct (map fst (snd c))"
  proof
    fix c assume "c \<in> set ?chunks'"
    then have "c = (ck, AList.update bk y ?blocks) \<or> c \<in> set ?chunks"
      using set_update_subset [of ck "AList.update bk y ?blocks" ?chunks] by auto
    then show "distinct (map fst (snd c))"
      using inner d2 by (auto simp: distinct_update)
  qed
  have "distinct (map fst (AList.update rk ?chunks' rd))"
    using assms by (simp add: wf_regions_def distinct_update)
  moreover have "\<forall>e \<in> set (AList.update rk ?chunks' rd).
      distinct (map fst (snd e)) \<and> (\<forall>c \<in> set (snd e). distinct (map fst (snd c)))"
  proof
    fix e assume "e \<in> set (AList.update rk ?chunks' rd)"
    then have "e = (rk, ?chunks') \<or> e \<in> set rd"
      using set_update_subset [of rk ?chunks' rd] by auto
    then show "distinct (map fst (snd e)) \<and> (\<forall>c \<in> set (snd e). distinct (map fst (snd c)))"
      using c1 c2 assms by (auto simp: wf_regions_def)
  qed
  ultimately show ?thesis by (simp add: wf_regions_def region_insert_def Let_def)
qed

lemma lookup3_insert:
  "lookup3 (region_insert rd rk ck bk y) rk' ck' bk' =
     (if rk' = rk \<and> ck' = ck \<and> bk' = bk then Some y else lookup3 rd rk' ck' bk')"
  by (auto simp: lookup3_def region_insert_def Let_def update_conv' dd_get_def
      split: option.splits)

lemma organize_fold_wf:
  "wf_regions rd \<Longrightarrow>
   wf_regions (fold (\<lambda>((x, z), y) region_data.
             region_insert region_data (region x, region z) (chunk x, chunk z)
               (block x, block z) y) cs rd)"
proof (induction cs arbitrary: rd)
  case Nil
  then show ?case by simp
next
  case (Cons item cs)
  obtain x z y where item: "item = ((x, z), y)" by (cases item) auto
  show ?case using Cons.prems by (simp add: item Cons.IH wf_regions_insert)
qed

lemma organize_by_region_wf: "wf_regions (organize_by_region cs)"
  unfolding organize_by_region_unfold by (rule organize_fold_wf) (simp add: wf_regions_def)

lemma organize_fold_lookup:
  "lookup3 (fold (\<lambda>((x, z), y) region_data.
             region_insert region_data (region x, region z) (chunk x, chunk z)
               (block x, block z) y) cs rd)
       (region x, region z) (chunk x, chunk z) (block x, block z)
   = (case map_of (rev cs) (x, z) of
        None \<Rightarrow> lookup3 rd (region x, region z) (chunk x, chunk z) (block x, block z)
      | Some y \<Rightarrow> Some y)"
proof (induction cs arbitrary: rd)
  case Nil
  show ?case by simp
next
  case (Cons item cs)
  obtain x' z' y' where item: "item = ((x', z'), y')" by (cases item) auto
  have same: "(region x = region x' \<and> region z = region z') \<and>
              (chunk x = chunk x' \<and> chunk z = chunk z') \<and>
              (block x = block x' \<and> block z = block z') \<longleftrightarrow> x = x' \<and> z = z'"
    using decompose_inject [of x z x' z'] by (auto simp: decompose_def)
  show ?case
    using same
    by (auto simp: item Cons.IH lookup3_insert map_add_def split: option.splits)
qed

lemma organize_by_region_lookup:
  "distinct (map fst cs) \<Longrightarrow>
   lookup3 (organize_by_region cs) (region x, region z) (chunk x, chunk z) (block x, block z)
     = map_of cs (x, z)"
proof -
  assume d: "distinct (map fst cs)"
  have e: "lookup3 [] (region x, region z) (chunk x, chunk z) (block x, block z) = None"
    by (simp add: lookup3_def)
  show ?thesis
    unfolding organize_by_region_unfold organize_fold_lookup e map_of_rev_distinct [OF d]
    by (simp split: option.splits)
qed

text \<open>
  Claim C5 as stated fails. A batch of one column at \<open>(0, 0)\<close> with elevation 5, emitted
  with floor 0 through a library that accepts every block: the region written holds the
  single block at height 5; height 3, between the floor and the elevation, is in no
  chunk of any region written.
\<close>

theorem single_level_counterexample:
  "map_of [((0, 0), 5)] (0, 0) = Some (5 :: int) \<and>
   written (generate_mca_batch demo_codec [((0, 0), 5)] 0 0 0 {} False) =
     [(''r.0.0.mca'',
       \<lparr>reg_x = 0, reg_z = 0,
        reg_chunks = [\<lparr>chk_x = 0, chk_z = 0, chk_blocks = [(0, 5, 0)]\<rparr>]\<rparr>)] \<and>
   (0 :: int) \<le> 3 \<and> (3 :: int) \<le> 5 \<and>
   (0, 3, 0) \<notin> set (concat (map chk_blocks (concat (map (\<lambda>w. reg_chunks (snd w))
       (written (generate_mca_batch demo_codec [((0, 0), 5)] 0 0 0 {} False))))))"
  by (simp add: generate_mca_batch_def organize_by_region_def decompose_def region_insert_def
      dd_get_def region_def chunk_def block_def Let_def mca_filename_def str_int_def
      str_nat.simps digit_char_def generate_mca_file_def demo_codec_def)

lemma written_column_blocks:
  assumes "distinct (map fst batch_coords)"
    and "(f, reg) \<in> set (written (generate_mca_batch cd batch_coords bx by' me skip dsm))"
    and "map_of batch_coords (x, z) = Some y"
    and "reg_x reg = region x" and "reg_z reg = region z"
  shows "(\<exists>c \<in> set (reg_chunks reg). chk_x c = chunk x \<and> chk_z c = chunk z) \<and>
         (\<forall>c lvl. c \<in> set (reg_chunks reg) \<and> chk_x c = chunk x \<and> chk_z c = chunk z \<longrightarrow>
            ((block x, lvl, block z) \<in> set (chk_blocks c) \<longleftrightarrow>
               lvl = y \<and> me \<le> y \<and> y \<le> 319 \<and> set_block_ok cd (block x) y (block z)))"
proof -
  let ?rd = "organize_by_region batch_coords"
  let ?rk = "(region x, region z)"
  let ?ck = "(chunk x, chunk z)"
  let ?bk = "(block x, block z)"
  have wf: "wf_regions ?rd" by (rule organize_by_region_wf)
  obtain e where e: "e \<in> set ?rd"
      "generate_mca_file cd (fst (fst e)) (snd (fst e)) (snd e) me dsm = Some reg"
  proof -
    let ?init = "\<lparr>existing_mcas_set = skip, written = [], attempted = [], mca_count = 0\<rparr>"
    have "(f, reg) \<in> set (written (emit_regions cd me dsm ?rd ?init))"
      using assms(2) by (simp add: generate_mca_batch_def)
    then have "(f, reg) \<in> set (written ?init) \<or>
      (\<exists>e \<in> set ?rd. f = mca_filename (fst (fst e)) (snd (fst e)) \<and>
         generate_mca_file cd (fst (fst e)) (snd (fst e)) (snd e) me dsm = Some reg)"
      by (rule emit_regions_written)
    then show ?thesis using that by auto
  qed
  have reg: "reg = \<lparr>reg_x = fst (fst e), reg_z = snd (fst e),
                    reg_chunks = map (chunk_doc_of cd me) (snd e)\<rparr>"
    using e(2) by (rule generate_mca_file_Some)
  have key: "fst e = ?rk"
    using reg assms(4,5) by (metis prod.collapse region_doc.select_convs(1,2))
  have "(?rk, snd e) \<in> set ?rd" using e(1) key by (metis prod.collapse)
  then have mr: "map_of ?rd ?rk = Some (snd e)"
    using wf by (simp add: wf_regions_def)
  have "lookup3 ?rd ?rk ?ck ?bk = Some y"
    using assms(1,3) by (simp add: organize_by_region_lookup)
  then obtain bl where bl: "map_of (snd e) ?ck = Some bl" "map_of bl ?bk = Some y"
    using mr by (auto simp: lookup3_def split: option.splits)
  have dch: "distinct (map fst (snd e))"
    using wf e(1) by (simp add: wf_regions_def)
  have mem: "(?ck, bl) \<in> set (snd e)" using bl(1) by (rule map_of_SomeD)
  have dbl: "distinct (map fst bl)"
    using wf e(1) mem by (fastforce simp: wf_regions_def)
  have ex: "\<exists>c \<in> set (reg_chunks reg). chk_x c = chunk x \<and> chk_z c = chunk z"
  proof
    show "chunk_doc_of cd me (?ck, bl) \<in> set (reg_chunks reg)"
      using mem reg by (metis image_eqI image_set region_doc.select_convs(3))
    show "chk_x (chunk_doc_of cd me (?ck, bl)) = chunk x \<and>
          chk_z (chunk_doc_of cd me (?ck, bl)) = chunk z"
      by (simp add: chunk_doc_of_def)
  qed
  have all: "\<forall>c lvl. c \<in> set (reg_chunks reg) \<and> chk_x c = chunk x \<and> chk_z c = chunk z \<longrightarrow>
            ((block x, lvl, block z) \<in> set (chk_blocks c) \<longleftrightarrow>
               lvl = y \<and> me \<le> y \<and> y \<le> 319 \<and> set_block_ok cd (block x) y (block z))"
  proof (intro allI impI)
    fix c lvl
    assume c: "c \<in> set (reg_chunks reg) \<and> chk_x c = chunk x \<and> chk_z c = chunk z"
    then have "c \<in> chunk_doc_of cd me ` set (snd e)"
      using reg by (metis image_set region_doc.select_convs(3))
    then obtain k bl' where k: "(k, bl') \<in> set (snd e)" "c = chunk_doc_of cd me (k, bl')"
      by auto
    have "k = ?ck" using c k(2) by (cases k) (simp add: chunk_doc_of_def)
    then have "map_of (snd e) ?ck = Some bl'" using k(1) dch by simp
    then have "bl' = bl" using bl(1) by simp
    then have "chk_blocks c = place_blocks cd me bl"
      using k(2) by (cases k) (simp add: chunk_doc_of_def)
    then show "(block x, lvl, block z) \<in> set (chk_blocks c) \<longleftrightarrow>
               lvl = y \<and> me \<le> y \<and> y \<le> 319 \<and> set_block_ok cd (block x) y (block z)"
      using place_blocks_column [OF dbl bl(2), of lvl cd me] by simp
  qed
  show ?thesis using ex all by blast
qed

text \<open>
  Claim C5, amended. For every region file written by an emission and every column
  \<open>(x, z)\<close> of the batch map, with elevation \<open>y\<close>, that lies in that region: the region
  holds the chunk of the column, and in that chunk the column has a block at height
  \<open>lvl\<close> exactly when \<open>lvl = y\<close>, \<open>y\<close> lies between the floor and 319, and the library
  accepted the block. So a column holds at most one block, at its sampled elevation.
\<close>

theorem emitted_column_holds_one_block:
  assumes "distinct (map fst batch_coords)"
    and "(f, reg) \<in> set (written (generate_mca_batch cd batch_coords bx by' me skip dsm))"
    and "map_of batch_coords (x, z) = Some y"
    and "reg_x reg = region x" and "reg_z reg = region z"
  shows "(\<exists>c \<in> set (reg_chunks reg). chk_x c = chunk x \<and> chk_z c = chunk z) \<and>
         (\<forall>c lvl. c \<in> set (reg_chunks reg) \<and> chk_x c = chunk x \<and> chk_z c = chunk z \<longrightarrow>
            ((block x, lvl, block z) \<in> set (chk_blocks c) \<longleftrightarrow>
               lvl = y \<and> me \<le> y \<and> y \<le> 319 \<and> set_block_ok cd (block x) y (block z)))"
  using assms by (rule written_column_blocks)

theorem emitted_column_holds_one_block_witness:
  "distinct (map fst demo_batch) \<and>
   (''r.0.0.mca'', demo_region)
     \<in> set (written (generate_mca_batch demo_codec demo_batch 0 0 0 {} False)) \<and>
   map_of demo_batch (0, 0) = Some 5 \<and>
   reg_x demo_region = region 0 \<and> reg_z demo_region = region 0 \<and>
   (\<exists>c \<in> set (reg_chunks demo_region). chk_x c = chunk 0 \<and> chk_z c = chunk 0) \<and>
   (block 0, 5, block 0) \<in> set (chk_blocks \<lparr>chk_x = 0, chk_z = 0, chk_blocks = [(0, 5, 0)]\<rparr>) \<and>
   (block 0, 3, block 0) \<notin> set (chk_blocks \<lparr>chk_x = 0, chk_z = 0, chk_blocks = [(0, 5, 0)]\<rparr>)"
proof -
  have d: "distinct (map fst demo_batch)" by (simp add: demo_batch_def)
  have w: "(''r.0.0.mca'', demo_region)
     \<in> set (written (generate_mca_batch demo_codec demo_batch 0 0 0 {} False))"
    by (simp add: generate_mca_batch_def organize_by_region_def decompose_def region_insert_def dd_get_def
        region_def chunk_def block_def drop_bit_eq_div and_15_mod and_31_mod Let_def
        mca_filename_def str_int_def str_nat.simps digit_char_def generate_mca_file_def
        demo_codec_def demo_batch_def demo_region_def)
  have m: "map_of demo_batch (0, 0) = Some 5" by (simp add: demo_batch_def)
  have rx: "reg_x demo_region = region 0" by (simp add: demo_region_def region_def)
  have rz: "reg_z demo_region = region 0" by (simp add: demo_region_def region_def)
  have c: "\<lparr>chk_x = 0, chk_z = 0, chk_blocks = [(0, 5, 0)]\<rparr> \<in> set (reg_chunks demo_region) \<and>
           chk_x \<lparr>chk_x = 0, chk_z = 0, chk_blocks = [(0, 5, 0)]\<rparr> = chunk 0 \<and>
           chk_z \<lparr>chk_x = 0, chk_z = 0, chk_blocks = [(0, 5, 0)]\<rparr> = chunk 0"
    by (simp add: demo_region_def chunk_def)
  have ok: "set_block_ok demo_codec (block 0) 5 (block 0)" by (simp add: demo_codec_def)
  note t = emitted_column_holds_one_block [OF d w m rx rz]
  have inst: "(block 0, lvl, block 0)
        \<in> set (chk_blocks \<lparr>chk_x = 0, chk_z = 0, chk_blocks = [(0, 5, 0)]\<rparr>) \<longleftrightarrow>
      lvl = 5 \<and> (0::int) \<le> 5 \<and> (5::int) \<le> 319 \<and> set_block_ok demo_codec (block 0) 5 (block 0)"
    for lvl
    using t c by blast
  have five: "(block 0, 5, block 0)
      \<in> set (chk_blocks \<lparr>chk_x = 0, chk_z = 0, chk_blocks = [(0, 5, 0)]\<rparr>)"
    using inst [of 5] ok by simp
  have three: "(block 0, 3, block 0)
      \<notin> set (chk_blocks \<lparr>chk_x = 0, chk_z = 0, chk_blocks = [(0, 5, 0)]\<rparr>)"
    using inst [of 3] by simp
  show ?thesis using d w m rx rz t five three by blast
qed

subsection \<open>The stored floor in a run of stage 2\<close>

text \<open>One iteration of the batch loop is the emission followed by the periodic save.\<close>

lemma s2_batches_Cons:
  "s2_batches env tfs bx by' bs me (i # rest) st =
     s2_batches env tfs bx by' bs me rest (s2_save env i (s2_emit env tfs bx by' bs me i st))"
  by (simp add: s2_emit_def s2_save_def batch_coords_at_def Let_def)

lemma s2_batches_inv:
  assumes "P st"
    and "\<And>i s. i \<in> set idxs \<Longrightarrow> P s \<Longrightarrow> P (s2_save env i (s2_emit env tfs bx by' bs me i s))"
  shows "P (s2_batches env tfs bx by' bs me idxs st)"
  using assms
proof (induction idxs arbitrary: st)
  case Nil
  then show ?case by simp
next
  case (Cons i idxs)
  show ?case
    unfolding s2_batches_Cons
    by (rule Cons.IH) (simp_all add: Cons.prems)
qed

lemma emit_regions_new:
  "\<exists>new. written (emit_regions cd me dsm rd st) = written st @ new \<and>
     existing_mcas_set (emit_regions cd me dsm rd st) = existing_mcas_set st \<union> fst ` set new"
proof (induction rd arbitrary: st)
  case Nil
  show ?case by simp
next
  case (Cons e rd)
  obtain rx rz chunks where e: "e = ((rx, rz), chunks)" by (cases e) auto
  let ?f = "mca_filename rx rz"
  let ?st1 = "st\<lparr>attempted := attempted st @ [?f]\<rparr>"
  show ?case
  proof (cases "?f \<in> existing_mcas_set st")
    case True
    then show ?thesis using Cons.IH [of st] by (simp add: e)
  next
    case False
    show ?thesis
    proof (cases "generate_mca_file cd rx rz chunks me dsm")
      case None
      then show ?thesis using False Cons.IH [of ?st1] by (simp add: e Let_def)
    next
      case (Some reg)
      show ?thesis
      proof (cases "save_ok cd ?f")
        case True
        let ?st2 = "?st1\<lparr>existing_mcas_set := insert ?f (existing_mcas_set ?st1),
                       written := written ?st1 @ [(?f, reg)],
                       mca_count := mca_count ?st1 + 1\<rparr>"
        obtain new where new: "written (emit_regions cd me dsm rd ?st2) = written ?st2 @ new"
          "existing_mcas_set (emit_regions cd me dsm rd ?st2) = existing_mcas_set ?st2 \<union> fst ` set new"
          using Cons.IH [of ?st2] by blast
        have run: "emit_regions cd me dsm (e # rd) st = emit_regions cd me dsm rd ?st2"
          using False Some True by (simp add: e Let_def)
        have "written (emit_regions cd me dsm (e # rd) st) = written st @ ((?f, reg) # new)"
          using new(1) run by simp
        moreover have "existing_mcas_set (emit_regions cd me dsm (e # rd) st)
            = existing_mcas_set st \<union> fst ` set ((?f, reg) # new)"
          using new(2) run by auto
        ultimately show ?thesis by blast
      next
        case no: False
        then show ?thesis using False Some Cons.IH [of ?st1] by (simp add: e Let_def)
      qed
    qed
  qed
qed

lemma build_chunks_accepted:
  "(\<forall>ck. add_chunk_ok cd rk ck) \<Longrightarrow>
   build_chunks cd rk me chunks acc = Some (acc @ map (chunk_doc_of cd me) chunks)"
proof (induction chunks arbitrary: acc)
  case Nil
  show ?case by simp
next
  case (Cons e chunks)
  obtain cx cz bc where e: "e = ((cx, cz), bc)" by (cases e) auto
  show ?case
    using Cons.prems Cons.IH [OF Cons.prems, of "acc @ [chunk_doc_of cd me e]"]
    by (simp add: e chunk_doc_of_def Let_def)
qed

lemma emit_regions_materializes:
  assumes "e \<in> set rd"
    and "\<forall>ck. add_chunk_ok cd (fst e) ck"
    and "save_ok cd (mca_filename (fst (fst e)) (snd (fst e)))"
  shows "mca_filename (fst (fst e)) (snd (fst e)) \<in> existing_mcas_set (emit_regions cd me dsm rd st)"
  using assms(1)
proof (induction rd arbitrary: st)
  case Nil
  then show ?case by simp
next
  case (Cons d rd)
  obtain rx rz chunks where d: "d = ((rx, rz), chunks)" by (cases d) auto
  let ?f = "mca_filename rx rz"
  let ?st1 = "st\<lparr>attempted := attempted st @ [?f]\<rparr>"
  have mono: "\<And>s. existing_mcas_set s \<subseteq> existing_mcas_set (emit_regions cd me dsm rd s)"
    using emit_regions_effects by blast
  show ?case
  proof (cases "d = e")
    case True
    have fe: "fst e = (rx, rz)" using True d by (metis fst_conv)
    show ?thesis
    proof (cases "?f \<in> existing_mcas_set st")
      case True
      then show ?thesis using mono [of st] fe by (auto simp: d)
    next
      case False
      have "build_chunks cd (rx, rz) me chunks [] = Some ([] @ map (chunk_doc_of cd me) chunks)"
        using assms(2) fe by (intro build_chunks_accepted) simp
      then obtain reg where reg: "generate_mca_file cd rx rz chunks me dsm = Some reg"
        by (simp add: generate_mca_file_def)
      let ?st2 = "?st1\<lparr>existing_mcas_set := insert ?f (existing_mcas_set ?st1),
                     written := written ?st1 @ [(?f, reg)],
                     mca_count := mca_count ?st1 + 1\<rparr>"
      have ok: "save_ok cd ?f" using assms(3) fe by simp
      have run: "emit_regions cd me dsm (d # rd) st = emit_regions cd me dsm rd ?st2"
        using False reg ok by (simp add: d Let_def)
      have "?f \<in> existing_mcas_set ?st2" by simp
      then show ?thesis using mono [of ?st2] run fe by auto
    qed
  next
    case False
    then have mem: "e \<in> set rd" using Cons.prems by simp
    note ih = Cons.IH [OF mem]
    show ?thesis
      using ih [of st] ih [of ?st1]
        ih [of "?st1\<lparr>existing_mcas_set := insert ?f (existing_mcas_set ?st1),
                     written := written ?st1 @ [(?f, r)],
                     mca_count := mca_count ?st1 + 1\<rparr>" for r]
      by (auto simp: d Let_def split: option.splits)
  qed
qed


lemma generate_mca_batch_skip_set:
  "existing_mcas_set (generate_mca_batch cd bc bx by' me skip dsm)
     = skip \<union> fst ` set (written (generate_mca_batch cd bc bx by' me skip dsm))"
  using emit_regions_new [of cd me dsm "organize_by_region bc"
      "\<lparr>existing_mcas_set = skip, written = [], attempted = [], mca_count = 0\<rparr>"]
  by (auto simp: generate_mca_batch_def)

lemma generate_mca_batch_materializes:
  assumes "item \<in> set bc"
    and "\<forall>ck. add_chunk_ok cd (coord_region item) ck"
    and "save_ok cd (mca_filename (fst (coord_region item)) (snd (coord_region item)))"
  shows "mca_filename (fst (coord_region item)) (snd (coord_region item))
           \<in> existing_mcas_set (generate_mca_batch cd bc bx by' me skip dsm)"
proof -
  have "coord_region item \<in> fst ` set (organize_by_region bc)"
    using assms(1) by (simp add: organize_by_region_keys)
  then obtain e where e: "e \<in> set (organize_by_region bc)" "fst e = coord_region item"
    by auto
  show ?thesis
    unfolding generate_mca_batch_def
    using emit_regions_materializes [OF e(1), of cd me dsm] assms(2,3) e(2) by simp
qed

lemma s2_emit_checkpoint [simp]:
  "s2_checkpoint (s2_emit env tfs bx by' bs me i st) = s2_checkpoint st"
  "s2_saved (s2_emit env tfs bx by' bs me i st) = s2_saved st"
  by (simp_all add: s2_emit_def Let_def)

lemma s2_emit_written:
  "mca_written (s2_emit env tfs bx by' bs me i st) =
     mca_written st @
       (if batch_coords_at (read_raster env) tfs bx by' bs i \<noteq> [] then
          written (generate_mca_batch (region_codec env)
                     (batch_coords_at (read_raster env) tfs bx by' bs i) bx by' me
                     (skip_set st) (is_dsm (s2_checkpoint st)))
        else [])"
  by (simp add: s2_emit_def Let_def)

lemma s2_emit_skip_set:
  "skip_set st = A \<union> fst ` set (mca_written st) \<Longrightarrow>
   skip_set (s2_emit env tfs bx by' bs me i st)
     = A \<union> fst ` set (mca_written (s2_emit env tfs bx by' bs me i st))"
  by (auto simp: s2_emit_def Let_def generate_mca_batch_skip_set)

lemma s2_emit_skip_mono:
  "skip_set st \<subseteq> skip_set (s2_emit env tfs bx by' bs me i st)"
  by (auto simp: s2_emit_def Let_def generate_mca_batch_skip_set)

lemma s2_emit_materializes:
  assumes "item \<in> set (batch_coords_at (read_raster env) tfs bx by' bs i)"
    and "\<forall>ck. add_chunk_ok (region_codec env) (coord_region item) ck"
    and "save_ok (region_codec env) (mca_filename (fst (coord_region item)) (snd (coord_region item)))"
  shows "mca_filename (fst (coord_region item)) (snd (coord_region item))
           \<in> skip_set (s2_emit env tfs bx by' bs me i st)"
proof -
  have ne: "batch_coords_at (read_raster env) tfs bx by' bs i \<noteq> []"
    using assms(1) by auto
  show ?thesis
    using generate_mca_batch_materializes [OF assms, of bx by' me "skip_set st" "is_dsm (s2_checkpoint st)"] ne
    by (simp add: s2_emit_def Let_def)
qed

lemma s2_save_fields [simp]:
  "skip_set (s2_save env i st) = skip_set st"
  "mca_written (s2_save env i st) = mca_written st"
  "min_elevation (s2_checkpoint (s2_save env i st)) = min_elevation (s2_checkpoint st)"
  "is_dsm (s2_checkpoint (s2_save env i st)) = is_dsm (s2_checkpoint st)"
  by (simp_all add: s2_save_def Let_def)

lemma s2_save_saved:
  "c \<in> set (s2_saved (s2_save env i st)) \<Longrightarrow>
   c \<in> set (s2_saved st) \<or> min_elevation c = min_elevation (s2_checkpoint st)"
  by (auto simp: s2_save_def Let_def split: if_splits)

text \<open>The floor and the surface flag of the dictionary are the same after every batch,
  and every document the loop saves holds them.\<close>

lemma s2_batches_floor:
  assumes "min_elevation (s2_checkpoint st) = v" and "is_dsm (s2_checkpoint st) = d"
    and "\<forall>c \<in> set (s2_saved st). min_elevation c = v"
  shows "min_elevation (s2_checkpoint (s2_batches env tfs bx by' bs me idxs st)) = v \<and>
         is_dsm (s2_checkpoint (s2_batches env tfs bx by' bs me idxs st)) = d \<and>
         (\<forall>c \<in> set (s2_saved (s2_batches env tfs bx by' bs me idxs st)). min_elevation c = v)"
proof (rule s2_batches_inv [where P = "\<lambda>s. min_elevation (s2_checkpoint s) = v \<and>
         is_dsm (s2_checkpoint s) = d \<and> (\<forall>c \<in> set (s2_saved s). min_elevation c = v)"])
  show "min_elevation (s2_checkpoint st) = v \<and> is_dsm (s2_checkpoint st) = d \<and>
        (\<forall>c \<in> set (s2_saved st). min_elevation c = v)"
    using assms by simp
next
  fix i and s :: s2_state
  assume "min_elevation (s2_checkpoint s) = v \<and> is_dsm (s2_checkpoint s) = d \<and>
          (\<forall>c \<in> set (s2_saved s). min_elevation c = v)"
  then show "min_elevation (s2_checkpoint (s2_save env i (s2_emit env tfs bx by' bs me i s))) = v \<and>
        is_dsm (s2_checkpoint (s2_save env i (s2_emit env tfs bx by' bs me i s))) = d \<and>
        (\<forall>c \<in> set (s2_saved (s2_save env i (s2_emit env tfs bx by' bs me i s))). min_elevation c = v)"
    using s2_save_saved [of _ env i "s2_emit env tfs bx by' bs me i s"] by auto
qed

text \<open>Every region file of the run was written by one call of \<open>generate_mca_batch\<close>, on
  the coordinate map of one of the batches and with the floor \<open>me\<close>.\<close>

lemma s2_batches_written:
  assumes "is_dsm (s2_checkpoint st) = d"
    and "w \<in> set (mca_written (s2_batches env tfs bx by' bs me idxs st))"
  shows "w \<in> set (mca_written st) \<or>
         (\<exists>i \<in> set idxs. \<exists>skip.
            w \<in> set (written (generate_mca_batch (region_codec env)
                     (batch_coords_at (read_raster env) tfs bx by' bs i) bx by' me skip d)))"
  using assms
proof (induction idxs arbitrary: st)
  case Nil
  then show ?case by simp
next
  case (Cons i idxs)
  let ?mid = "s2_save env i (s2_emit env tfs bx by' bs me i st)"
  have d: "is_dsm (s2_checkpoint ?mid) = d" using Cons.prems(1) by simp
  have w: "w \<in> set (mca_written (s2_batches env tfs bx by' bs me idxs ?mid))"
    using Cons.prems(2) by (simp only: s2_batches_Cons)
  from Cons.IH [OF d w] show ?case
  proof
    assume "w \<in> set (mca_written ?mid)"
    then show ?thesis
      using Cons.prems(1) by (auto simp: s2_emit_written split: if_splits)
  next
    assume "\<exists>i \<in> set idxs. \<exists>skip.
            w \<in> set (written (generate_mca_batch (region_codec env)
                     (batch_coords_at (read_raster env) tfs bx by' bs i) bx by' me skip d))"
    then show ?thesis by auto
  qed
qed

lemma s2_batches_skip_mono:
  "skip_set st \<subseteq> skip_set (s2_batches env tfs bx by' bs me idxs st)"
proof (rule s2_batches_inv [where P = "\<lambda>s. skip_set st \<subseteq> skip_set s"])
  show "skip_set st \<subseteq> skip_set st" by simp
next
  fix i and s :: s2_state
  assume "skip_set st \<subseteq> skip_set s"
  then show "skip_set st \<subseteq> skip_set (s2_save env i (s2_emit env tfs bx by' bs me i s))"
    using s2_emit_skip_mono [of s env tfs bx by' bs me i] by auto
qed

lemma s2_batches_skip_set:
  assumes "skip_set st = A \<union> fst ` set (mca_written st)"
  shows "skip_set (s2_batches env tfs bx by' bs me idxs st)
     = A \<union> fst ` set (mca_written (s2_batches env tfs bx by' bs me idxs st))"
proof (rule s2_batches_inv [where P = "\<lambda>s. skip_set s = A \<union> fst ` set (mca_written s)"])
  show "skip_set st = A \<union> fst ` set (mca_written st)" by (rule assms)
next
  fix i and s :: s2_state
  assume "skip_set s = A \<union> fst ` set (mca_written s)"
  then show "skip_set (s2_save env i (s2_emit env tfs bx by' bs me i s))
      = A \<union> fst ` set (mca_written (s2_save env i (s2_emit env tfs bx by' bs me i s)))"
    using s2_emit_skip_set [of s A env tfs bx by' bs me i] by simp
qed

text \<open>Every region that a batch of the run has a sample in, and that the container
  library accepts, is in the skip-set at the end: it was there, or the run wrote it.\<close>

lemma s2_batches_materializes:
  assumes "i \<in> set idxs"
    and "item \<in> set (batch_coords_at (read_raster env) tfs bx by' bs i)"
    and "\<forall>ck. add_chunk_ok (region_codec env) (coord_region item) ck"
    and "save_ok (region_codec env) (mca_filename (fst (coord_region item)) (snd (coord_region item)))"
  shows "mca_filename (fst (coord_region item)) (snd (coord_region item))
           \<in> skip_set (s2_batches env tfs bx by' bs me idxs st)"
  using assms(1)
proof (induction idxs arbitrary: st)
  case Nil
  then show ?case by simp
next
  case (Cons j idxs)
  let ?mid = "s2_save env j (s2_emit env tfs bx by' bs me j st)"
  show ?case
  proof (cases "j = i")
    case True
    have "mca_filename (fst (coord_region item)) (snd (coord_region item)) \<in> skip_set ?mid"
      using s2_emit_materializes [OF assms(2,3,4), of me st] True by simp
    then show ?thesis
      using s2_batches_skip_mono [of ?mid env tfs bx by' bs me idxs]
      by (auto simp only: s2_batches_Cons)
  next
    case False
    then have "i \<in> set idxs" using Cons.prems by simp
    from Cons.IH [OF this, of ?mid] show ?thesis by (simp only: s2_batches_Cons)
  qed
qed


lemma generate_mca_batch_written_region:
  assumes "(f, reg) \<in> set (written (generate_mca_batch cd bc bx by' me skip dsm))"
  shows "f = mca_filename (reg_x reg) (reg_z reg) \<and> (reg_x reg, reg_z reg) \<in> coord_region ` set bc"
proof -
  let ?init = "\<lparr>existing_mcas_set = skip, written = [], attempted = [], mca_count = 0\<rparr>"
  have "(f, reg) \<in> set (written (emit_regions cd me dsm (organize_by_region bc) ?init))"
    using assms by (simp add: generate_mca_batch_def)
  then obtain e where e: "e \<in> set (organize_by_region bc)"
      "f = mca_filename (fst (fst e)) (snd (fst e))"
      "generate_mca_file cd (fst (fst e)) (snd (fst e)) (snd e) me dsm = Some reg"
    using emit_regions_written [of f reg cd me dsm "organize_by_region bc" ?init] by auto
  have reg: "reg_x reg = fst (fst e)" "reg_z reg = snd (fst e)"
    using generate_mca_file_Some [OF e(3)] by simp_all
  have "fst e \<in> coord_region ` set bc"
    using e(1) organize_by_region_keys [of bc] by blast
  then show ?thesis using e(2) reg by simp
qed

lemma batch_coords_at_distinct:
  "distinct (map fst (batch_coords_at rd tfs bx by' bs i))"
  by (simp add: batch_coords_at_def aggregate_batch_distinct)

lemma s2_with_stored_floor:
  assumes "min_elevation ckpt = Some stored" and "tfs \<noteq> []" and "bs \<noteq> 0"
    and "fin = s2_batches env tfs bx by' bs stored (s2_batch_range tfs bs ckpt)
                 ((s2_start env on_disk ckpt)\<lparr>s2_saved := []\<rparr>)"
    and "c2 = (s2_checkpoint fin)
                 \<lparr>step2_complete := Some True,
                  final_mca_count := Some (length (remdups (on_disk @ map fst (mca_written fin))))\<rparr>"
  shows "s2 env tfs on_disk bx by' bs ckpt
           = Inr (True, fin\<lparr>s2_checkpoint := c2, s2_saved := s2_saved fin @ [c2]\<rparr>)"
  using assms by (simp add: s2_def elevation_floor_def s2_generate_def s2_batch_range_def Let_def)

text \<open>
  Claim C9. When the loaded checkpoint holds a floor, the floor section of \<open>s2\<close> returns
  exactly that value, leaves the dictionary as it is and saves nothing, whatever the
  tiles are. For a non-empty input and a non-zero batch size the stage then runs the
  batches with the stored value and succeeds, and the stored value is what the run uses:
  the final dictionary and every document saved during the run (the last of them the
  final one) hold it; every region file written comes out of \<open>generate_mca_batch\<close> called
  on the coordinate map of one of the batches with the stored value as \<open>min_elev\<close>, under
  the name of its region, and for each column of that map in the region the chunk of the
  column holds a block exactly at the column's elevation, and only if the elevation is
  between the stored floor and 319 and the library accepts it; and every region in which a
  batch has a column, and which the library accepts, is on disk at the start or written by
  the run.
\<close>

theorem stored_floor_is_loaded:
  "min_elevation ckpt = Some stored \<Longrightarrow>
   elevation_floor rd tfs bx by' ckpt = (stored, ckpt, []) \<and>
   (tfs \<noteq> [] \<and> bs \<noteq> 0 \<longrightarrow>
    s2 env tfs on_disk bx by' bs ckpt =
      Inr (s2_generate env tfs on_disk bx by' bs
             (case step2_batch ckpt of None \<Rightarrow> 0 | Some n \<Rightarrow> n) stored ckpt []) \<and>
    (\<exists>st. s2 env tfs on_disk bx by' bs ckpt = Inr (True, st) \<and>
       min_elevation (s2_checkpoint st) = Some stored \<and>
       s2_saved st \<noteq> [] \<and> last (s2_saved st) = s2_checkpoint st \<and>
       (\<forall>c \<in> set (s2_saved st). min_elevation c = Some stored) \<and>
       (\<forall>f reg. (f, reg) \<in> set (mca_written st) \<longrightarrow>
          (\<exists>i \<in> set (s2_batch_range tfs bs ckpt).
             (\<exists>skip. (f, reg) \<in> set (written (generate_mca_batch (region_codec env)
                         (batch_coords_at (read_raster env) tfs bx by' bs i) bx by' stored
                         skip (is_dsm ckpt)))) \<and>
             f = mca_filename (reg_x reg) (reg_z reg) \<and>
             (reg_x reg, reg_z reg)
               \<in> coord_region ` set (batch_coords_at (read_raster env) tfs bx by' bs i) \<and>
             (\<forall>x z y. map_of (batch_coords_at (read_raster env) tfs bx by' bs i) (x, z) = Some y \<and>
                  reg_x reg = region x \<and> reg_z reg = region z \<longrightarrow>
                (\<exists>c \<in> set (reg_chunks reg). chk_x c = chunk x \<and> chk_z c = chunk z) \<and>
                (\<forall>c lvl. c \<in> set (reg_chunks reg) \<and> chk_x c = chunk x \<and> chk_z c = chunk z \<longrightarrow>
                   ((block x, lvl, block z) \<in> set (chk_blocks c) \<longleftrightarrow>
                      lvl = y \<and> stored \<le> y \<and> y \<le> 319 \<and>
                      set_block_ok (region_codec env) (block x) y (block z)))))) \<and>
       (\<forall>i \<in> set (s2_batch_range tfs bs ckpt).
          \<forall>item \<in> set (batch_coords_at (read_raster env) tfs bx by' bs i).
            (\<forall>ck. add_chunk_ok (region_codec env) (coord_region item) ck) \<and>
            save_ok (region_codec env)
              (mca_filename (fst (coord_region item)) (snd (coord_region item))) \<longrightarrow>
            mca_filename (fst (coord_region item)) (snd (coord_region item))
              \<in> set on_disk \<union> fst ` set (mca_written st))))"
proof -
  assume stored: "min_elevation ckpt = Some stored"
  have floor: "elevation_floor rd tfs bx by' ckpt = (stored, ckpt, [])"
    using stored by (simp add: elevation_floor_def)
  have run: "s2 env tfs on_disk bx by' bs ckpt =
      Inr (s2_generate env tfs on_disk bx by' bs
             (case step2_batch ckpt of None \<Rightarrow> 0 | Some n \<Rightarrow> n) stored ckpt [])"
    if "tfs \<noteq> []" "bs \<noteq> 0"
    using stored that by (simp add: elevation_floor_def s2_def)
  have stage: "\<exists>st. s2 env tfs on_disk bx by' bs ckpt = Inr (True, st) \<and>
       min_elevation (s2_checkpoint st) = Some stored \<and>
       s2_saved st \<noteq> [] \<and> last (s2_saved st) = s2_checkpoint st \<and>
       (\<forall>c \<in> set (s2_saved st). min_elevation c = Some stored) \<and>
       (\<forall>f reg. (f, reg) \<in> set (mca_written st) \<longrightarrow>
          (\<exists>i \<in> set (s2_batch_range tfs bs ckpt).
             (\<exists>skip. (f, reg) \<in> set (written (generate_mca_batch (region_codec env)
                         (batch_coords_at (read_raster env) tfs bx by' bs i) bx by' stored
                         skip (is_dsm ckpt)))) \<and>
             f = mca_filename (reg_x reg) (reg_z reg) \<and>
             (reg_x reg, reg_z reg)
               \<in> coord_region ` set (batch_coords_at (read_raster env) tfs bx by' bs i) \<and>
             (\<forall>x z y. map_of (batch_coords_at (read_raster env) tfs bx by' bs i) (x, z) = Some y \<and>
                  reg_x reg = region x \<and> reg_z reg = region z \<longrightarrow>
                (\<exists>c \<in> set (reg_chunks reg). chk_x c = chunk x \<and> chk_z c = chunk z) \<and>
                (\<forall>c lvl. c \<in> set (reg_chunks reg) \<and> chk_x c = chunk x \<and> chk_z c = chunk z \<longrightarrow>
                   ((block x, lvl, block z) \<in> set (chk_blocks c) \<longleftrightarrow>
                      lvl = y \<and> stored \<le> y \<and> y \<le> 319 \<and>
                      set_block_ok (region_codec env) (block x) y (block z)))))) \<and>
       (\<forall>i \<in> set (s2_batch_range tfs bs ckpt).
          \<forall>item \<in> set (batch_coords_at (read_raster env) tfs bx by' bs i).
            (\<forall>ck. add_chunk_ok (region_codec env) (coord_region item) ck) \<and>
            save_ok (region_codec env)
              (mca_filename (fst (coord_region item)) (snd (coord_region item))) \<longrightarrow>
            mca_filename (fst (coord_region item)) (snd (coord_region item))
              \<in> set on_disk \<union> fst ` set (mca_written st))"
    if ne: "tfs \<noteq> []" "bs \<noteq> 0"
  proof -
    let ?init = "(s2_start env on_disk ckpt)\<lparr>s2_saved := []\<rparr>"
    let ?idxs = "s2_batch_range tfs bs ckpt"
    let ?bc = "\<lambda>i. batch_coords_at (read_raster env) tfs bx by' bs i"
    define fin where "fin = s2_batches env tfs bx by' bs stored ?idxs ?init"
    define c2 where "c2 = (s2_checkpoint fin)
                 \<lparr>step2_complete := Some True,
                  final_mca_count := Some (length (remdups (on_disk @ map fst (mca_written fin))))\<rparr>"
    define st where "st = fin\<lparr>s2_checkpoint := c2, s2_saved := s2_saved fin @ [c2]\<rparr>"
    have res: "s2 env tfs on_disk bx by' bs ckpt = Inr (True, st)"
      unfolding st_def by (rule s2_with_stored_floor [OF stored ne fin_def c2_def])
    have init: "min_elevation (s2_checkpoint ?init) = Some stored"
        "is_dsm (s2_checkpoint ?init) = is_dsm ckpt"
        "\<forall>c \<in> set (s2_saved ?init). min_elevation c = Some stored"
        "skip_set ?init = set on_disk \<union> fst ` set (mca_written ?init)"
        "mca_written ?init = []"
      using stored by (simp_all add: s2_start_def)
    have keep: "min_elevation (s2_checkpoint fin) = Some stored"
        "\<forall>c \<in> set (s2_saved fin). min_elevation c = Some stored"
      using s2_batches_floor [OF init(1,2,3), of env tfs bx by' bs stored ?idxs]
      by (simp_all add: fin_def)
    have c2: "min_elevation c2 = Some stored" using keep(1) by (simp add: c2_def)
    have a: "min_elevation (s2_checkpoint st) = Some stored"
      using c2 by (simp add: st_def)
    have b: "s2_saved st \<noteq> [] \<and> last (s2_saved st) = s2_checkpoint st"
      by (simp add: st_def)
    have c: "\<forall>c \<in> set (s2_saved st). min_elevation c = Some stored"
      using keep(2) c2 by (auto simp: st_def)
    have w: "mca_written st = mca_written fin" by (simp add: st_def)
    have d: "\<exists>i \<in> set ?idxs.
             (\<exists>skip. (f, reg) \<in> set (written (generate_mca_batch (region_codec env)
                         (?bc i) bx by' stored skip (is_dsm ckpt)))) \<and>
             f = mca_filename (reg_x reg) (reg_z reg) \<and>
             (reg_x reg, reg_z reg) \<in> coord_region ` set (?bc i) \<and>
             (\<forall>x z y. map_of (?bc i) (x, z) = Some y \<and>
                  reg_x reg = region x \<and> reg_z reg = region z \<longrightarrow>
                (\<exists>c \<in> set (reg_chunks reg). chk_x c = chunk x \<and> chk_z c = chunk z) \<and>
                (\<forall>c lvl. c \<in> set (reg_chunks reg) \<and> chk_x c = chunk x \<and> chk_z c = chunk z \<longrightarrow>
                   ((block x, lvl, block z) \<in> set (chk_blocks c) \<longleftrightarrow>
                      lvl = y \<and> stored \<le> y \<and> y \<le> 319 \<and>
                      set_block_ok (region_codec env) (block x) y (block z))))"
      if mem: "(f, reg) \<in> set (mca_written st)" for f reg
    proof -
      have "(f, reg) \<in> set (mca_written (s2_batches env tfs bx by' bs stored ?idxs ?init))"
        using mem w by (simp add: fin_def)
      from s2_batches_written [OF init(2) this] init(5)
      obtain i skip where i: "i \<in> set ?idxs"
        and wr: "(f, reg) \<in> set (written (generate_mca_batch (region_codec env)
                         (?bc i) bx by' stored skip (is_dsm ckpt)))"
        by auto
      note shape = generate_mca_batch_written_region [OF wr]
      have col: "(\<exists>c \<in> set (reg_chunks reg). chk_x c = chunk x \<and> chk_z c = chunk z) \<and>
                (\<forall>c lvl. c \<in> set (reg_chunks reg) \<and> chk_x c = chunk x \<and> chk_z c = chunk z \<longrightarrow>
                   ((block x, lvl, block z) \<in> set (chk_blocks c) \<longleftrightarrow>
                      lvl = y \<and> stored \<le> y \<and> y \<le> 319 \<and>
                      set_block_ok (region_codec env) (block x) y (block z)))"
        if "map_of (?bc i) (x, z) = Some y" "reg_x reg = region x" "reg_z reg = region z"
        for x z y
        by (rule written_column_blocks [OF batch_coords_at_distinct wr that])
      show ?thesis
        using i wr shape col by blast
    qed
    have e: "mca_filename (fst (coord_region item)) (snd (coord_region item))
              \<in> set on_disk \<union> fst ` set (mca_written st)"
      if "i \<in> set ?idxs" "item \<in> set (?bc i)"
        "\<forall>ck. add_chunk_ok (region_codec env) (coord_region item) ck"
        "save_ok (region_codec env) (mca_filename (fst (coord_region item)) (snd (coord_region item)))"
      for i item
      using s2_batches_materializes [OF that, of stored ?init]
        s2_batches_skip_set [OF init(4), of env tfs bx by' bs stored ?idxs]
      by (simp add: fin_def w)
    show ?thesis
      using res a b c d e by blast
  qed
  show ?thesis
    using floor run stage by blast
qed

theorem stored_floor_is_loaded_witness:
  "min_elevation (demo_config\<lparr>min_elevation := Some 7\<rparr>) = Some 7 \<and>
   sample_floor demo_reader 0 0 [''a.tif'', ''b.tif''] 0 = 0 \<and>
   elevation_floor demo_reader [''a.tif'', ''b.tif''] 0 0 (demo_config\<lparr>min_elevation := Some 7\<rparr>)
     = (7, demo_config\<lparr>min_elevation := Some 7\<rparr>, []) \<and>
   [''a.tif'', ''b.tif''] \<noteq> [] \<and> (10::int) \<noteq> 0 \<and>
   s2_batch_range [''a.tif'', ''b.tif''] 10 (demo_config\<lparr>min_elevation := Some 7\<rparr>) = [0] \<and>
   batch_coords_at demo_reader [''a.tif'', ''b.tif''] 0 0 10 0
     = [((1, 2), 30), ((8, 8), 1), ((3, 3), 5), ((4, 4), 6)] \<and>
   (\<exists>st. s2 (demo_s2_env\<lparr>batch_clock_at := (\<lambda>i. 60000000)\<rparr>) [''a.tif'', ''b.tif''] [] 0 0 10
             (demo_config\<lparr>min_elevation := Some 7\<rparr>) = Inr (True, st) \<and>
      min_elevation (s2_checkpoint st) = Some 7 \<and>
      map min_elevation (s2_saved st) = [Some 7, Some 7] \<and>
      mca_written st =
        [(''r.0.0.mca'',
          \<lparr>reg_x = 0, reg_z = 0,
           reg_chunks = [\<lparr>chk_x = 0, chk_z = 0, chk_blocks = [(1, 30, 2)]\<rparr>]\<rparr>)])"
proof -
  let ?env = "demo_s2_env\<lparr>batch_clock_at := (\<lambda>i. 60000000)\<rparr>"
  let ?ckpt = "demo_config\<lparr>min_elevation := Some 7\<rparr>"
  have h: "min_elevation ?ckpt = Some 7" by simp
  have s: "sample_floor demo_reader 0 0 [''a.tif'', ''b.tif''] 0 = 0"
    by (simp add: process_tiff_simple_def demo_reader_def nodata_default_def)
  have r: "s2_batch_range [''a.tif'', ''b.tif''] 10 ?ckpt = [0]"
    by (simp add: s2_batch_range_def demo_config_def upto.simps)
  have bc: "batch_coords_at demo_reader [''a.tif'', ''b.tif''] 0 0 10 0
     = [((1, 2), 30), ((8, 8), 1), ((3, 3), 5), ((4, 4), 6)]"
    by (simp add: batch_coords_at_def py_slice_def py_index_def process_tiff_simple_def
        demo_reader_def nodata_default_def build_coords_def dict_update_def Let_def)
  have em: "generate_mca_batch demo_codec [((1, 2), 30), ((8, 8), 1), ((3, 3), 5), ((4, 4), 6)]
               0 0 7 {} False =
      \<lparr>existing_mcas_set = {''r.0.0.mca''},
       written = [(''r.0.0.mca'',
          \<lparr>reg_x = 0, reg_z = 0,
           reg_chunks = [\<lparr>chk_x = 0, chk_z = 0, chk_blocks = [(1, 30, 2)]\<rparr>]\<rparr>)],
       attempted = [''r.0.0.mca''], mca_count = 1\<rparr>"
    by (simp add: generate_mca_batch_def organize_by_region_def decompose_def region_insert_def
        dd_get_def region_def chunk_def block_def drop_bit_eq_div and_15_mod and_31_mod Let_def
        mca_filename_def str_int_def str_nat.simps digit_char_def generate_mca_file_def
        demo_codec_def)
  have run: "\<exists>st. s2 ?env [''a.tif'', ''b.tif''] [] 0 0 10 ?ckpt = Inr (True, st) \<and>
      min_elevation (s2_checkpoint st) = Some 7 \<and>
      map min_elevation (s2_saved st) = [Some 7, Some 7] \<and>
      mca_written st =
        [(''r.0.0.mca'',
          \<lparr>reg_x = 0, reg_z = 0,
           reg_chunks = [\<lparr>chk_x = 0, chk_z = 0, chk_blocks = [(1, 30, 2)]\<rparr>]\<rparr>)]"
    using bc em
    by (simp add: s2_def elevation_floor_def s2_generate_def s2_start_def s2_batches_Cons
        s2_emit_def s2_save_def demo_s2_env_def demo_config_def upto.simps Let_def
        interval_elapsed_def CHECKPOINT_INTERVAL_def del: s2_batches.simps(2))
  show ?thesis
    using h s r bc run
      stored_floor_is_loaded [OF h, of demo_reader "[''a.tif'', ''b.tif'']" 0 0 10 ?env "[]"]
    by simp
qed

end
